theory Spec2Isabelle
  imports Main "HOL-Library.Word"
begin

section \<open>Data model (internal/models)\<close>

text \<open>
  A \<open>uuid.UUID\<close> is identified with its canonical text, which is what \<open>ID.String()\<close>
  returns. Instants (\<open>time.Time\<close>, \<open>TIMESTAMP WITH TIME ZONE\<close>) are integers on one
  time line; a nullable column or pointer is an \<open>option\<close>.
\<close>

datatype uuid = UUID (uuid_String: string)

type_synonym time = int

record User =
  u_ID :: uuid
  u_Email :: string
  u_Password :: string
  u_Name :: string
  u_CreatedAt :: time
  u_UpdatedAt :: time

record Document =
  d_ID :: uuid
  d_OwnerID :: uuid
  d_Name :: string
  d_OriginalName :: string
  d_Size :: int
  d_MimeType :: string
  d_EncryptionAlgo :: string
  d_FilePath :: string
  d_IsEncrypted :: bool
  d_CreatedAt :: time
  d_UpdatedAt :: time
  d_DeletedAt :: "time option"

record DocumentShare =
  ds_ID :: uuid
  ds_DocumentID :: uuid
  ds_SharedByID :: uuid
  ds_SharedWithID :: uuid
  ds_Permission :: string
  ds_ExpiresAt :: "time option"
  ds_CreatedAt :: time

text \<open>
  The error values of the services and of \<open>pkg/utils\<close>. \<open>Wrapped msg e\<close> is
  \<open>fmt.Errorf("msg: %w", e)\<close>; \<open>ErrExternal\<close> stands for an error handed up from the
  database driver, the operating system or a library.
\<close>

datatype error =
    ErrDocumentNotFound
  | ErrAccessDenied
  | ErrShareNotFound
  | ErrUserNotFound
  | ErrUserExists
  | ErrInvalidFilename
  | ErrInvalidContentType
  | ErrExternal
  | Wrapped string error

section \<open>The store\<close>

text \<open>
  The three tables created by \<open>DB.Migrate\<close>, each a list of rows in insertion order,
  and the upload directory's files (path to content). The tables' key constraints are
  \<open>users.id\<close>, \<open>users.email\<close>, \<open>documents.id\<close>, \<open>document_shares.id\<close> and
  \<open>UNIQUE(document_id, shared_with_id)\<close>; an insert that would break one is refused
  with \<open>ErrExternal\<close>. The width and encoding of the column \<open>name VARCHAR(255)\<close>
  are checked where \<open>Rename\<close> writes a name that no code has sanitized. Failures of
  the database that do not depend on the statement and the tables' contents (a lost
  connection) are outside the model.
\<close>

record store =
  users :: "User list"
  documents :: "Document list"
  document_shares :: "DocumentShare list"
  files :: "string \<rightharpoonup> string"

definition shares_unique :: "store \<Rightarrow> bool" where
  "shares_unique s =
     distinct (map (\<lambda>r. (ds_DocumentID r, ds_SharedWithID r)) (document_shares s))"

text \<open>\<open>expires_at IS NULL OR expires_at > NOW()\<close>\<close>

definition share_active :: "time \<Rightarrow> DocumentShare \<Rightarrow> bool" where
  "share_active now r = (case ds_ExpiresAt r of None \<Rightarrow> True | Some e \<Rightarrow> e > now)"

definition share_for :: "uuid \<Rightarrow> uuid \<Rightarrow> DocumentShare \<Rightarrow> bool" where
  "share_for documentID userID r =
     (ds_DocumentID r = documentID \<and> ds_SharedWithID r = userID)"

definition share_key :: "DocumentShare \<Rightarrow> uuid \<times> uuid" where
  "share_key r = (ds_DocumentID r, ds_SharedWithID r)"

text \<open>A document identifier with a row, and with a deletion time on each of its rows.\<close>

definition deleted_in :: "uuid \<Rightarrow> store \<Rightarrow> bool" where
  "deleted_in D s =
     ((\<exists>d \<in> set (documents s). d_ID d = D)
      \<and> (\<forall>d \<in> set (documents s). d_ID d = D \<longrightarrow> d_DeletedAt d \<noteq> None))"

text \<open>The rows of a pair that are active at a time.\<close>

definition active_shares :: "store \<Rightarrow> time \<Rightarrow> uuid \<Rightarrow> uuid \<Rightarrow> DocumentShare list" where
  "active_shares s now documentID userID =
     filter (\<lambda>r. share_for documentID userID r \<and> share_active now r) (document_shares s)"

section \<open>DocumentService: lookups\<close>

text \<open>\<open>SELECT ... FROM documents WHERE id = $1 AND deleted_at IS NULL\<close>\<close>

definition GetByID :: "store \<Rightarrow> uuid \<Rightarrow> error + Document" where
  "GetByID s id' =
     (case find (\<lambda>d. d_ID d = id' \<and> d_DeletedAt d = None) (documents s) of
        None \<Rightarrow> Inl ErrDocumentNotFound
      | Some doc \<Rightarrow> Inr doc)"

text \<open>
  \<open>CanAccess\<close> returns Go's triple \<open>(bool, string, error)\<close>; the error is \<open>None\<close> for
  \<open>nil\<close>. \<open>QueryRow(...).Scan\<close> reads the first row the query selects.
\<close>

definition CanAccess :: "store \<Rightarrow> time \<Rightarrow> uuid \<Rightarrow> uuid \<Rightarrow> bool \<times> string \<times> error option" where
  "CanAccess s now documentID userID =
     (case GetByID s documentID of
        Inl err \<Rightarrow> (False, [], Some err)
      | Inr doc \<Rightarrow>
          if d_OwnerID doc = userID then (True, ''owner'', None)
          else (case find (\<lambda>r. share_for documentID userID r \<and> share_active now r)
                       (document_shares s) of
                  None \<Rightarrow> (False, [], None)
                | Some r \<Rightarrow> (True, ds_Permission r, None)))"

definition without_share :: "DocumentShare \<Rightarrow> store \<Rightarrow> store" where
  "without_share sh s = s\<lparr>document_shares := filter (\<lambda>r. r \<noteq> sh) (document_shares s)\<rparr>"

section \<open>pkg/utils and the library functions it calls\<close>

text \<open>
  Go strings are byte sequences, as \<open>string\<close> is here. The functions of Go's
  \<open>path/filepath\<close> and \<open>strings\<close> packages are written out for a Unix target, where
  the only path separator is the slash.
\<close>

definition IsPathSeparator :: "char \<Rightarrow> bool" where
  "IsPathSeparator c = (c = CHR ''/'')"

text \<open>
  \<open>filepath.Base\<close>: the last element of the path, after trailing separators are
  removed; \<open>"."\<close> for the empty path and \<open>"/"\<close> for a path of separators only.
\<close>

definition filepath_Base :: "string \<Rightarrow> string" where
  "filepath_Base path =
     (if path = [] then ''.''
      else let stripped = rev (dropWhile IsPathSeparator (rev path));
               element = rev (takeWhile (\<lambda>c. \<not> IsPathSeparator c) (rev stripped))
           in if element = [] then ''/'' else element)"

text \<open>
  \<open>filepath.Ext\<close>: the suffix that starts at the last dot of the last path element,
  empty when that element has no dot.
\<close>

definition filepath_Ext :: "string \<Rightarrow> string" where
  "filepath_Ext path =
     (let element = takeWhile (\<lambda>c. \<not> IsPathSeparator c) (rev path)
      in if CHR ''.'' \<in> set element
         then CHR ''.'' # rev (takeWhile (\<lambda>c. c \<noteq> CHR ''.'') element)
         else [])"

text \<open>\<open>strings.ReplaceAll(s, old, new)\<close> for an \<open>old\<close> of one byte.\<close>

definition strings_ReplaceAll :: "string \<Rightarrow> char \<Rightarrow> string \<Rightarrow> string" where
  "strings_ReplaceAll s old new = concat (map (\<lambda>c. if c = old then new else [c]) s)"

text \<open>
  \<open>strings.TrimSpace\<close> removes the white-space runes (\<open>unicode.IsSpace\<close>) at both
  ends. These are six ASCII bytes and the code points U+0085, U+00A0, U+1680,
  U+2000 to U+200A, U+2028, U+2029, U+202F, U+205F and U+3000, listed below in UTF-8.
  A byte from \<open>0x80\<close> on that does not start one of these encodings decodes to a rune
  that is no white space, so trimming stops there.
\<close>

definition asciiSpace :: "char \<Rightarrow> bool" where
  "asciiSpace c = (c \<in> set [CHR 0x09, CHR 0x0A, CHR 0x0B, CHR 0x0C, CHR 0x0D, CHR 0x20])"

definition unicodeSpaces :: "string list" where
  "unicodeSpaces =
     [[CHR 0xC2, CHR 0x85], [CHR 0xC2, CHR 0xA0], [CHR 0xE1, CHR 0x9A, CHR 0x80],
      [CHR 0xE2, CHR 0x80, CHR 0x80], [CHR 0xE2, CHR 0x80, CHR 0x81],
      [CHR 0xE2, CHR 0x80, CHR 0x82], [CHR 0xE2, CHR 0x80, CHR 0x83],
      [CHR 0xE2, CHR 0x80, CHR 0x84], [CHR 0xE2, CHR 0x80, CHR 0x85],
      [CHR 0xE2, CHR 0x80, CHR 0x86], [CHR 0xE2, CHR 0x80, CHR 0x87],
      [CHR 0xE2, CHR 0x80, CHR 0x88], [CHR 0xE2, CHR 0x80, CHR 0x89],
      [CHR 0xE2, CHR 0x80, CHR 0x8A], [CHR 0xE2, CHR 0x80, CHR 0xA8],
      [CHR 0xE2, CHR 0x80, CHR 0xA9], [CHR 0xE2, CHR 0x80, CHR 0xAF],
      [CHR 0xE2, CHR 0x81, CHR 0x9F], [CHR 0xE3, CHR 0x80, CHR 0x80]]"

text \<open>The width in bytes of the white-space rune a string starts with, 0 if it starts with none.\<close>

definition leading_space :: "string \<Rightarrow> nat" where
  "leading_space s =
     (case s of
        [] \<Rightarrow> 0
      | c # _ \<Rightarrow>
          if asciiSpace c then 1
          else (case find (\<lambda>e. take (length e) s = e) unicodeSpaces of
                  Some e \<Rightarrow> length e
                | None \<Rightarrow> 0))"

text \<open>The same for the rune a string ends with, read on the reversed string.\<close>

definition trailing_space :: "string \<Rightarrow> nat" where
  "trailing_space s =
     (case rev s of
        [] \<Rightarrow> 0
      | c # _ \<Rightarrow>
          if asciiSpace c then 1
          else (case find (\<lambda>e. take (length e) (rev s) = rev e) unicodeSpaces of
                  Some e \<Rightarrow> length e
                | None \<Rightarrow> 0))"

function TrimLeft :: "string \<Rightarrow> string" where
  "TrimLeft s = (if leading_space s = 0 then s else TrimLeft (drop (leading_space s) s))"
  by pat_completeness auto
termination
  by (relation "measure length") (auto simp: leading_space_def split: list.splits)

function TrimRight :: "string \<Rightarrow> string" where
  "TrimRight s =
     (if trailing_space s = 0 then s else TrimRight (take (length s - trailing_space s) s))"
  by pat_completeness auto
termination
  by (relation "measure length") (auto simp: trailing_space_def split: list.splits)

definition strings_TrimSpace :: "string \<Rightarrow> string" where
  "strings_TrimSpace s = TrimRight (TrimLeft s)"

text \<open>The name after the base name is taken and separators, null bytes and outer white space are removed.\<close>

definition stripped_name :: "string \<Rightarrow> string" where
  "stripped_name filename =
     strings_TrimSpace
       (strings_ReplaceAll
          (strings_ReplaceAll
             (strings_ReplaceAll (filepath_Base filename) CHR ''/'' [])
             (CHR 0x5C) [])
          (CHR 0x00) [])"

definition SanitizeFilename :: "string \<Rightarrow> error + string" where
  "SanitizeFilename filename =
     (if filename = [] then Inl ErrInvalidFilename
      else let name = stripped_name filename in
        if name = [] \<or> name = ''.'' \<or> name = ''..'' then Inl ErrInvalidFilename
        else if length name > 255 then
          (let ext = filepath_Ext name;
               maxBase = 255 - int (length ext)
           in if maxBase < 1 then Inl ErrInvalidFilename
              else Inr (take (nat maxBase) name @ ext))
        else Inr name)"


text \<open>
  \<open>strings.ToLower\<close> lowers the ASCII letters. Of the runes outside ASCII, only U+212A
  (Kelvin sign) and U+0130 (dotted capital I) have an ASCII lower case, \<open>k\<close> and \<open>i\<close>;
  their UTF-8 encodings are replaced. Every other byte from \<open>0x80\<close> on is kept as it
  is: Go may rewrite it, but only to bytes from \<open>0x80\<close> on, and the one use of the
  result is the comparison with the ASCII names of the allow-list.
\<close>

definition lower_byte :: "char \<Rightarrow> char" where
  "lower_byte c =
     (if 65 \<le> (of_char c :: nat) \<and> (of_char c :: nat) \<le> 90
      then char_of ((of_char c :: nat) + 32) else c)"

fun strings_ToLower :: "string \<Rightarrow> string" where
  "strings_ToLower [] = []"
| "strings_ToLower (a # s) =
     (if a = CHR 0xE2 \<and> take 2 s = [CHR 0x84, CHR 0xAA] then CHR ''k'' # strings_ToLower (drop 2 s)
      else if a = CHR 0xC4 \<and> take 1 s = [CHR 0xB0] then CHR ''i'' # strings_ToLower (drop 1 s)
      else lower_byte a # strings_ToLower s)"

definition AllowedMIMETypes :: "string list" where
  "AllowedMIMETypes =
     [''application/pdf'',
      ''application/msword'',
      ''application/vnd.openxmlformats-officedocument.wordprocessingml.document'',
      ''application/vnd.ms-excel'',
      ''application/vnd.openxmlformats-officedocument.spreadsheetml.sheet'',
      ''application/vnd.ms-powerpoint'',
      ''application/vnd.openxmlformats-officedocument.presentationml.presentation'',
      ''text/plain'', ''text/csv'', ''text/markdown'', ''application/json'',
      ''application/xml'', ''text/xml'',
      ''image/jpeg'', ''image/png'', ''image/gif'', ''image/webp'', ''image/svg+xml'',
      ''application/zip'', ''application/x-zip-compressed'', ''application/gzip'',
      ''application/x-tar'']"

text \<open>The content type up to its first semicolon, lowered and trimmed, must be on the list.\<close>

definition ValidateContentType :: "string \<Rightarrow> error option" where
  "ValidateContentType contentType =
     (let ct = strings_TrimSpace
                 (strings_ToLower (takeWhile (\<lambda>c. c \<noteq> CHR '';'') contentType))
      in if ct \<in> set AllowedMIMETypes then None else Some ErrInvalidContentType)"

text \<open>
  \<open>filepath.Clean\<close>, element by element: empty elements and \<open>"."\<close> are dropped,
  \<open>".."\<close> removes the element before it, is dropped at the root, and is kept at the
  start of a relative path; an empty result is \<open>"."\<close>. \<open>filepath.Join\<close> cleans the
  non-empty elements joined by slashes.
\<close>

fun split_elements :: "string \<Rightarrow> string list" where
  "split_elements [] = [[]]"
| "split_elements (c # cs) =
     (if IsPathSeparator c then [] # split_elements cs
      else (case split_elements cs of
              [] \<Rightarrow> [[c]]
            | e # es \<Rightarrow> (c # e) # es))"

definition clean_element :: "bool \<Rightarrow> string list \<Rightarrow> string \<Rightarrow> string list" where
  "clean_element rooted out e =
     (if e = [] \<or> e = ''.'' then out
      else if e = ''..'' then
        (if out \<noteq> [] \<and> last out \<noteq> ''..'' then butlast out
         else if rooted then out
         else out @ [''..''])
      else out @ [e])"

fun join_elements :: "string list \<Rightarrow> string" where
  "join_elements [] = []"
| "join_elements [e] = e"
| "join_elements (e # es) = e @ ''/'' @ join_elements es"

definition filepath_Clean :: "string \<Rightarrow> string" where
  "filepath_Clean path =
     (if path = [] then ''.''
      else let rooted = IsPathSeparator (hd path);
               out = foldl (clean_element rooted) [] (split_elements path);
               res = (if rooted then ''/'' else []) @ join_elements out
           in if res = [] then ''.'' else res)"

definition filepath_Join :: "string \<Rightarrow> string \<Rightarrow> string" where
  "filepath_Join a b =
     (if a \<noteq> [] then filepath_Clean (a @ ''/'' @ b)
      else if b \<noteq> [] then filepath_Clean b
      else [])"

section \<open>DocumentService: operations\<close>

text \<open>
  A call that changes the store returns the store it leaves and Go's error (\<open>None\<close>
  for \<open>nil\<close>). What the code takes from its surroundings is a parameter of the call:
  the clock, the identifier that \<open>uuid.New()\<close> or the table's default draws, and
  whether the operating system refuses a file operation. \<open>Create\<close> reads the
  clock twice in a row; the model takes one reading for both.
\<close>

record os_env =
  create_fails :: bool
  copy_fails :: bool
  remove_fails :: bool

text \<open>
  \<open>os.Remove\<close>: the file is gone afterwards unless the operating system refuses; the
  result tells a missing file (\<open>os.IsNotExist\<close>) from any other failure.
\<close>

datatype remove_result = Removed | NotExist | RemoveFailed

definition os_Remove :: "os_env \<Rightarrow> (string \<rightharpoonup> string) \<Rightarrow> string \<Rightarrow> (string \<rightharpoonup> string) \<times> remove_result" where
  "os_Remove env fs path =
     (if fs path = None then (fs, NotExist)
      else if remove_fails env then (fs, RemoveFailed)
      else (fs(path := None), Removed))"

definition Create ::
  "string \<Rightarrow> store \<Rightarrow> os_env \<Rightarrow> uuid \<Rightarrow> time \<Rightarrow> uuid \<Rightarrow> string \<Rightarrow> string \<Rightarrow> string \<Rightarrow> int \<Rightarrow> string
     \<Rightarrow> store \<times> (error + Document)" where
  "Create uploadDir s env newID now ownerID name originalName mimeType size' fileData =
     (case ValidateContentType mimeType of
        Some err \<Rightarrow> (s, Inl (Wrapped ''invalid file type'' err))
      | None \<Rightarrow>
     (case SanitizeFilename originalName of
        Inl err \<Rightarrow> (s, Inl (Wrapped ''invalid filename'' err))
      | Inr sanitizedOriginalName \<Rightarrow>
     (case (if name \<noteq> [] then SanitizeFilename name else Inr sanitizedOriginalName) of
        Inl err \<Rightarrow> (s, Inl (Wrapped ''invalid document name'' err))
      | Inr sanitizedName \<Rightarrow>
          let doc = \<lparr> d_ID = newID, d_OwnerID = ownerID, d_Name = sanitizedName,
                      d_OriginalName = sanitizedOriginalName, d_Size = size',
                      d_MimeType = mimeType, d_EncryptionAlgo = ''AES-256-GCM'',
                      d_FilePath = filepath_Join uploadDir (uuid_String newID),
                      d_IsEncrypted = False, d_CreatedAt = now, d_UpdatedAt = now,
                      d_DeletedAt = None \<rparr>
          in if create_fails env then (s, Inl (Wrapped ''failed to create file'' ErrExternal))
             else if copy_fails env then
               (s\<lparr>files := fst (os_Remove env ((files s)(d_FilePath doc \<mapsto> [])) (d_FilePath doc))\<rparr>,
                Inl (Wrapped ''failed to save file'' ErrExternal))
             else if newID \<in> set (map d_ID (documents s)) then
               (s\<lparr>files := fst (os_Remove env ((files s)(d_FilePath doc \<mapsto> fileData)) (d_FilePath doc))\<rparr>,
                Inl (Wrapped ''failed to save document metadata'' ErrExternal))
             else (s\<lparr>documents := documents s @ [doc],
                     files := (files s)(d_FilePath doc \<mapsto> fileData)\<rparr>, Inr doc))))"

text \<open>
  \<open>Delete\<close> also returns the lines it prints. The \<open>UPDATE\<close> sets \<open>deleted_at\<close> on
  the rows with the identifier; the file is removed afterwards, and a refusal is printed
  (here without the text of the operating system's error) and not returned.
\<close>

definition set_deleted :: "time \<Rightarrow> uuid \<Rightarrow> Document list \<Rightarrow> Document list" where
  "set_deleted now id' ds =
     map (\<lambda>d. if d_ID d = id' then d\<lparr>d_DeletedAt := Some now\<rparr> else d) ds"

definition Delete :: "store \<Rightarrow> os_env \<Rightarrow> time \<Rightarrow> uuid \<Rightarrow> uuid \<Rightarrow> store \<times> string list \<times> error option" where
  "Delete s env now id' userID =
     (case GetByID s id' of
        Inl err \<Rightarrow> (s, [], Some err)
      | Inr doc \<Rightarrow>
          if d_OwnerID doc \<noteq> userID then (s, [], Some ErrAccessDenied)
          else let s1 = s\<lparr>documents := set_deleted now id' (documents s)\<rparr>;
                   (fs, res) = os_Remove env (files s1) (d_FilePath doc)
               in (s1\<lparr>files := fs\<rparr>,
                   (if res = RemoveFailed
                    then [''Warning: failed to delete file '' @ d_FilePath doc] else []),
                   None))"

text \<open>
  \<open>INSERT ... ON CONFLICT (document_id, shared_with_id) DO UPDATE SET permission = $4\<close>:
  a row of the pair has its permission overwritten, otherwise a row is added with the
  table's defaults, a drawn \<open>id\<close>, no expiry and the current time.
\<close>

definition upsert_share :: "uuid \<Rightarrow> time \<Rightarrow> uuid \<Rightarrow> uuid \<Rightarrow> uuid \<Rightarrow> string \<Rightarrow> DocumentShare list
     \<Rightarrow> DocumentShare list option" where
  "upsert_share newID now documentID sharedByID sharedWithID permission rows =
     (if \<exists>r \<in> set rows. share_for documentID sharedWithID r
      then Some (map (\<lambda>r. if share_for documentID sharedWithID r
                           then r\<lparr>ds_Permission := permission\<rparr> else r) rows)
      else if newID \<in> set (map ds_ID rows) then None
      else Some (rows @ [\<lparr> ds_ID = newID, ds_DocumentID = documentID,
                            ds_SharedByID = sharedByID, ds_SharedWithID = sharedWithID,
                            ds_Permission = permission, ds_ExpiresAt = None,
                            ds_CreatedAt = now \<rparr>]))"

definition Share :: "store \<Rightarrow> uuid \<Rightarrow> time \<Rightarrow> uuid \<Rightarrow> uuid \<Rightarrow> string \<Rightarrow> string \<Rightarrow> store \<times> error option" where
  "Share s newID now documentID ownerID sharedWithEmail permission =
     (case GetByID s documentID of
        Inl err \<Rightarrow> (s, Some err)
      | Inr doc \<Rightarrow>
          if d_OwnerID doc \<noteq> ownerID then (s, Some ErrAccessDenied)
          else (case find (\<lambda>u. u_Email u = sharedWithEmail) (users s) of
                  None \<Rightarrow> (s, Some ErrUserNotFound)
                | Some u \<Rightarrow>
                    (case upsert_share newID now documentID ownerID (u_ID u) permission
                            (document_shares s) of
                       None \<Rightarrow> (s, Some ErrExternal)
                     | Some rows \<Rightarrow> (s\<lparr>document_shares := rows\<rparr>, None))))"

text \<open>\<open>DELETE FROM document_shares WHERE document_id = $1 AND shared_with_id = $2\<close>\<close>

definition RemoveShare :: "store \<Rightarrow> uuid \<Rightarrow> uuid \<Rightarrow> uuid \<Rightarrow> store \<times> error option" where
  "RemoveShare s documentID ownerID sharedWithID =
     (case GetByID s documentID of
        Inl err \<Rightarrow> (s, Some err)
      | Inr doc \<Rightarrow>
          if d_OwnerID doc \<noteq> ownerID then (s, Some ErrAccessDenied)
          else let kept = filter (\<lambda>r. \<not> share_for documentID sharedWithID r) (document_shares s);
                   rows = length (document_shares s) - length kept
               in (s\<lparr>document_shares := kept\<rparr>,
                   if rows = 0 then Some ErrShareNotFound else None))"

definition GetFilePath :: "store \<Rightarrow> time \<Rightarrow> uuid \<Rightarrow> uuid \<Rightarrow> error + string" where
  "GetFilePath s now id' userID =
     (case GetByID s id' of
        Inl err \<Rightarrow> Inl err
      | Inr doc \<Rightarrow>
          if d_OwnerID doc = userID then Inr (d_FilePath doc)
          else let count = length (filter (\<lambda>r. share_for id' userID r \<and> share_active now r)
                                     (document_shares s))
               in if count = 0 then Inl ErrAccessDenied else Inr (d_FilePath doc))"

text \<open>
  What PostgreSQL (server encoding UTF8) does with a text value assigned to a column
  \<open>VARCHAR(n)\<close>. The value must be well-formed UTF-8 without a null byte. Up to
  \<open>n\<close> characters it is stored as it is; a longer value is cut to \<open>n\<close> characters
  when all the characters beyond are spaces, and refused otherwise.
\<close>

definition byte :: "char \<Rightarrow> nat" where
  "byte c = of_char c"

definition continuation :: "char \<Rightarrow> bool" where
  "continuation c = (0x80 \<le> byte c \<and> byte c \<le> 0xBF)"

text \<open>The width of the well-formed character a string starts with, 0 if it starts with none.\<close>

definition utf8_width :: "string \<Rightarrow> nat" where
  "utf8_width s =
     (case s of
        [] \<Rightarrow> 0
      | a # r \<Rightarrow>
          if byte a = 0 then 0
          else if byte a < 0x80 then 1
          else if 0xC2 \<le> byte a \<and> byte a \<le> 0xDF then
            (case r of b # _ \<Rightarrow> if continuation b then 2 else 0 | _ \<Rightarrow> 0)
          else if 0xE0 \<le> byte a \<and> byte a \<le> 0xEF then
            (case r of
               b # c # _ \<Rightarrow>
                 if (if byte a = 0xE0 then 0xA0 else 0x80) \<le> byte b
                    \<and> byte b \<le> (if byte a = 0xED then 0x9F else 0xBF)
                    \<and> continuation c
                 then 3 else 0
             | _ \<Rightarrow> 0)
          else if 0xF0 \<le> byte a \<and> byte a \<le> 0xF4 then
            (case r of
               b # c # d # _ \<Rightarrow>
                 if (if byte a = 0xF0 then 0x90 else 0x80) \<le> byte b
                    \<and> byte b \<le> (if byte a = 0xF4 then 0x8F else 0xBF)
                    \<and> continuation c \<and> continuation d
                 then 4 else 0
             | _ \<Rightarrow> 0)
          else 0)"

function utf8_chars :: "string \<Rightarrow> string list option" where
  "utf8_chars s =
     (if s = [] then Some []
      else if utf8_width s = 0 then None
      else map_option ((#) (take (utf8_width s) s)) (utf8_chars (drop (utf8_width s) s)))"
  by pat_completeness auto
termination
  by (relation "measure length") (auto simp: utf8_width_def split: list.splits)

declare utf8_chars.simps [simp del]

definition varchar :: "nat \<Rightarrow> string \<Rightarrow> string option" where
  "varchar n v =
     (case utf8_chars v of
        None \<Rightarrow> None
      | Some cs \<Rightarrow>
          if length cs \<le> n then Some v
          else if list_all (\<lambda>c. c = '' '') (drop n cs) then Some (concat (take n cs))
          else None)"

text \<open>
  \<open>UPDATE documents SET name = $1, updated_at = $2 WHERE id = $3\<close>; the error of a
  refused name is returned as it comes from the driver.
\<close>

definition set_name :: "string \<Rightarrow> time \<Rightarrow> uuid \<Rightarrow> Document list \<Rightarrow> Document list" where
  "set_name newName now id' ds =
     map (\<lambda>d. if d_ID d = id' then d\<lparr>d_Name := newName, d_UpdatedAt := now\<rparr> else d) ds"

definition Rename :: "store \<Rightarrow> time \<Rightarrow> uuid \<Rightarrow> uuid \<Rightarrow> string \<Rightarrow> store \<times> error option" where
  "Rename s now id' userID newName =
     (case CanAccess s now id' userID of
        (_, _, Some err) \<Rightarrow> (s, Some err)
      | (canAccess, permission, None) \<Rightarrow>
          if \<not> canAccess \<or> (permission \<noteq> ''owner'' \<and> permission \<noteq> ''edit'')
          then (s, Some ErrAccessDenied)
          else (case varchar 255 newName of
                  None \<Rightarrow> (s, Some ErrExternal)
                | Some stored \<Rightarrow>
                    (s\<lparr>documents := set_name stored now id' (documents s)\<rparr>, None)))"

section \<open>DocumentService: listings\<close>

text \<open>
  Go's \<open>int\<close> has 64 bits on the targets of this service; \<open>wrap64\<close> is the value a
  product takes there. \<open>LIMIT\<close> and \<open>OFFSET\<close> take a slice of the ordered rows, and
  the database refuses a negative one. \<open>ORDER BY created_at DESC\<close> leaves the order of
  rows with equal times to the database: that choice is the parameter \<open>tie\<close> of a
  listing, a rank by which rows of equal time are placed.
\<close>

definition wrap64 :: "int \<Rightarrow> int" where
  "wrap64 x = (x + 2 ^ 63) mod 2 ^ 64 - 2 ^ 63"

definition limit_offset :: "'a list \<Rightarrow> int \<Rightarrow> int \<Rightarrow> error + 'a list" where
  "limit_offset rows lim off =
     (if lim < 0 \<or> off < 0 then Inl ErrExternal
      else Inr (take (nat lim) (drop (nat off) rows)))"

definition order_desc :: "('a \<Rightarrow> nat) \<Rightarrow> ('a \<Rightarrow> time) \<Rightarrow> 'a list \<Rightarrow> 'a list" where
  "order_desc tie key rows = rev (sort_key key (sort_key tie rows))"

record SharedUserInfo =
  si_Email :: string
  si_Name :: string
  si_Permission :: string

record DocumentResponse =
  dr_Document :: Document
  dr_OwnerName :: string
  dr_SharedWith :: "SharedUserInfo list"

definition GetByOwner ::
  "store \<Rightarrow> (Document \<Rightarrow> nat) \<Rightarrow> uuid \<Rightarrow> int \<Rightarrow> int \<Rightarrow> error + (Document list \<times> int)" where
  "GetByOwner s tie ownerID page0 perPage0 =
     (let page = (if page0 < 1 then 1 else page0);
          perPage = (if perPage0 < 1 \<or> perPage0 > 100 then 20 else perPage0);
          offset = wrap64 ((page - 1) * perPage);
          owned = filter (\<lambda>d. d_OwnerID d = ownerID \<and> d_DeletedAt d = None) (documents s);
          total = int (length owned)
      in case limit_offset (order_desc tie d_CreatedAt owned) perPage offset of
           Inl err \<Rightarrow> Inl err
         | Inr rows \<Rightarrow> Inr (map (\<lambda>d. d\<lparr>d_DeletedAt := None\<rparr>) rows, total))"

text \<open>
  The rows of \<open>document_shares\<close> joined with their document and its owner. The query
  does not select \<open>file_path\<close> or \<open>deleted_at\<close>, which keep Go's zero values.
\<close>

definition shared_rows :: "store \<Rightarrow> time \<Rightarrow> uuid \<Rightarrow> (DocumentShare \<times> Document \<times> User) list" where
  "shared_rows s now userID =
     [(ds, d, u).
        ds \<leftarrow> document_shares s, ds_SharedWithID ds = userID, share_active now ds,
        d \<leftarrow> documents s, d_ID d = ds_DocumentID ds, d_DeletedAt d = None,
        u \<leftarrow> users s, u_ID u = d_OwnerID d]"

text \<open>
  The rows that the \<open>COUNT\<close> query of the shared listing counts: it joins the shares
  with their documents only, not with the owners.
\<close>

definition shared_count_rows :: "store \<Rightarrow> time \<Rightarrow> uuid \<Rightarrow> (DocumentShare \<times> Document) list" where
  "shared_count_rows s now userID =
     [(ds, d).
        ds \<leftarrow> document_shares s, ds_SharedWithID ds = userID, share_active now ds,
        d \<leftarrow> documents s, d_ID d = ds_DocumentID ds, d_DeletedAt d = None]"

text \<open>The response built from a joined row.\<close>

definition shared_response :: "DocumentShare \<times> Document \<times> User \<Rightarrow> DocumentResponse" where
  "shared_response row =
     (case row of (ds, d, u) \<Rightarrow>
        \<lparr> dr_Document = d\<lparr>d_FilePath := [], d_DeletedAt := None\<rparr>,
          dr_OwnerName = u_Name u, dr_SharedWith = [] \<rparr>)"

definition shared_created_at :: "DocumentShare \<times> Document \<times> User \<Rightarrow> time" where
  "shared_created_at row = (case row of (ds, d, u) \<Rightarrow> ds_CreatedAt ds)"

definition GetSharedWithUser ::
  "store \<Rightarrow> (DocumentShare \<times> Document \<times> User \<Rightarrow> nat) \<Rightarrow> time \<Rightarrow> uuid \<Rightarrow> int \<Rightarrow> int
     \<Rightarrow> error + (DocumentResponse list \<times> int)" where
  "GetSharedWithUser s tie now userID page0 perPage0 =
     (let page = (if page0 < 1 then 1 else page0);
          perPage = (if perPage0 < 1 \<or> perPage0 > 100 then 20 else perPage0);
          offset = wrap64 ((page - 1) * perPage);
          total = int (length (shared_count_rows s now userID));
          joined = shared_rows s now userID
      in case limit_offset (order_desc tie shared_created_at joined) perPage offset of
           Inl err \<Rightarrow> Inl err
         | Inr rows \<Rightarrow> Inr (map shared_response rows, total))"

section \<open>UserService\<close>

definition GetByEmail :: "store \<Rightarrow> string \<Rightarrow> error + User" where
  "GetByEmail s email =
     (case find (\<lambda>u. u_Email u = email) (users s) of
        None \<Rightarrow> Inl ErrUserNotFound
      | Some u \<Rightarrow> Inr u)"

text \<open>
  \<open>UserService.Create\<close>. The salted hash is what \<open>bcrypt.GenerateFromPassword\<close>
  returned, \<open>None\<close> when it returned an error.
\<close>

definition UserCreate :: "store \<Rightarrow> uuid \<Rightarrow> time \<Rightarrow> string option \<Rightarrow> string \<Rightarrow> string \<Rightarrow> store \<times> (error + User)" where
  "UserCreate s newID now hashedPassword email name =
     (case GetByEmail s email of
        Inr existing \<Rightarrow> (s, Inl ErrUserExists)
      | Inl _ \<Rightarrow>
          (case hashedPassword of
             None \<Rightarrow> (s, Inl ErrExternal)
           | Some h \<Rightarrow>
               let user = \<lparr> u_ID = newID, u_Email = email, u_Password = h, u_Name = name,
                            u_CreatedAt = now, u_UpdatedAt = now \<rparr>
               in if newID \<in> set (map u_ID (users s)) then (s, Inl ErrExternal)
                  else (s\<lparr>users := users s @ [user]\<rparr>, Inr user)))"

definition UpdateName :: "store \<Rightarrow> time \<Rightarrow> uuid \<Rightarrow> string \<Rightarrow> store \<times> error option" where
  "UpdateName s now id' name =
     (let rows = length (filter (\<lambda>u. u_ID u = id') (users s))
      in (s\<lparr>users := map (\<lambda>u. if u_ID u = id' then u\<lparr>u_Name := name, u_UpdatedAt := now\<rparr> else u)
                         (users s)\<rparr>,
          if rows = 0 then Some ErrUserNotFound else None))"

section \<open>Histories of calls\<close>

text \<open>
  The calls of the two services that write to the store, each with what it takes from
  its surroundings. A reachable store is one a history of calls leaves, starting from
  the empty tables that \<open>DB.Migrate\<close> creates.
\<close>

datatype call =
    CallUserCreate uuid time "string option" string string
  | CallUpdateName time uuid string
  | CallCreate os_env uuid time uuid string string string int string
  | CallDelete os_env time uuid uuid
  | CallShare uuid time uuid uuid string string
  | CallRemoveShare uuid uuid uuid
  | CallRename time uuid uuid string

fun exec :: "string \<Rightarrow> store \<Rightarrow> call \<Rightarrow> store" where
  "exec dir s (CallUserCreate newID now h email name) = fst (UserCreate s newID now h email name)"
| "exec dir s (CallUpdateName now i name) = fst (UpdateName s now i name)"
| "exec dir s (CallCreate env newID now owner name orig mime sz data) =
     fst (Create dir s env newID now owner name orig mime sz data)"
| "exec dir s (CallDelete env now i u) = fst (Delete s env now i u)"
| "exec dir s (CallShare newID now d owner email perm) = fst (Share s newID now d owner email perm)"
| "exec dir s (CallRemoveShare d owner w) = fst (RemoveShare s d owner w)"
| "exec dir s (CallRename now i u name) = fst (Rename s now i u name)"

definition run :: "string \<Rightarrow> store \<Rightarrow> call list \<Rightarrow> store" where
  "run dir s cs = foldl (exec dir) s cs"

definition empty_store :: store where
  "empty_store = \<lparr> users = [], documents = [], document_shares = [], files = Map.empty \<rparr>"

section \<open>DocumentHandler.ShareDocument\<close>

text \<open>
  The handler is given what gin's accessors return: the user that the authentication
  middleware stored in the context, the result of \<open>uuid.Parse\<close> on the path parameter,
  and the decoded JSON body (\<open>None\<close> when it does not decode; an absent field is the
  empty string). \<open>ShouldBindJSON\<close> then checks the binding tags of \<open>ShareRequest\<close>:
  \<open>required,email\<close> and \<open>required,oneof=view edit\<close>. The validator's test for the
  shape of an e-mail address is the parameter \<open>is_email\<close>. The response is the status
  code and the \<open>error\<close> field of the body.
\<close>

record ShareRequest =
  sr_Email :: string
  sr_Permission :: string

definition bind_ShareRequest :: "(string \<Rightarrow> bool) \<Rightarrow> ShareRequest option \<Rightarrow> ShareRequest option" where
  "bind_ShareRequest is_email body =
     (case body of
        None \<Rightarrow> None
      | Some req \<Rightarrow>
          if sr_Email req \<noteq> [] \<and> is_email (sr_Email req)
             \<and> sr_Permission req \<noteq> [] \<and> sr_Permission req \<in> set [''view'', ''edit'']
          then Some req else None)"

definition ShareDocument ::
  "(string \<Rightarrow> bool) \<Rightarrow> store \<Rightarrow> uuid \<Rightarrow> time \<Rightarrow> uuid option \<Rightarrow> uuid option \<Rightarrow> ShareRequest option
     \<Rightarrow> store \<times> nat \<times> string" where
  "ShareDocument is_email s newID now ctxUser paramID body =
     (case ctxUser of
        None \<Rightarrow> (s, 401, ''unauthorized'')
      | Some userID \<Rightarrow>
     (case paramID of
        None \<Rightarrow> (s, 400, ''invalid_id'')
      | Some docID \<Rightarrow>
     (case bind_ShareRequest is_email body of
        None \<Rightarrow> (s, 400, ''validation_error'')
      | Some req \<Rightarrow>
          (case Share s newID now docID userID (sr_Email req) (sr_Permission req) of
             (s', None) \<Rightarrow> (s', 200, [])
           | (s', Some err) \<Rightarrow>
               if err = ErrDocumentNotFound then (s', 404, ''document_not_found'')
               else if err = ErrUserNotFound then (s', 404, ''user_not_found'')
               else if err = ErrAccessDenied then (s', 403, ''access_denied'')
               else (s', 500, ''internal_error'')))))"

section \<open>Token service\<close>

text \<open>
  Modelled from the spec: \<open>AuthMiddleware.GenerateToken\<close> and
  \<open>AuthMiddleware.ValidateToken\<close> (internal/middleware/auth.go), of which only the
  tests and the callers are at hand. A token is its header's algorithm, its claims and
  its signature, or a string of another shape. The signature is symbolic: it records the
  key and what was signed, so that two signatures agree only when both do. Times are in
  seconds; the validity window is 24 hours.
\<close>

datatype token_error = ErrInvalidToken | ErrExpiredToken

datatype alg = HS256 | AlgNone | AlgOther string

record Claims =
  c_UserID :: uuid
  c_Email :: string
  c_IssuedAt :: time
  c_NotBefore :: time
  c_ExpiresAt :: time

datatype signature = Unsigned | Mac string alg Claims

datatype token = Malformed string | Token alg Claims signature

definition sign :: "string \<Rightarrow> alg \<Rightarrow> Claims \<Rightarrow> token" where
  "sign secret a c = Token a c (if a = AlgNone then Unsigned else Mac secret a c)"

definition GenerateToken :: "string \<Rightarrow> time \<Rightarrow> uuid \<Rightarrow> string \<Rightarrow> token" where
  "GenerateToken secret now userID email =
     sign secret HS256
       \<lparr> c_UserID = userID, c_Email = email, c_IssuedAt = now, c_NotBefore = now,
         c_ExpiresAt = now + 24 * 3600 \<rparr>"

definition ValidateToken :: "string \<Rightarrow> time \<Rightarrow> token \<Rightarrow> token_error + Claims" where
  "ValidateToken secret now tok =
     (case tok of
        Malformed _ \<Rightarrow> Inl ErrInvalidToken
      | Token a c sg \<Rightarrow>
          if a \<noteq> HS256 then Inl ErrInvalidToken
          else if sg \<noteq> Mac secret a c then Inl ErrInvalidToken
          else if now > c_ExpiresAt c then Inl ErrExpiredToken
          else Inr c)"

section \<open>A small store for the examples\<close>

text \<open>
  Alice owns two documents, the second soft-deleted at time 40. The first is shared with
  Bob for viewing, without expiry, and with Carol for editing until time 50.
\<close>

definition alice :: uuid where "alice = UUID ''a11ce''"
definition bob :: uuid where "bob = UUID ''b0b''"
definition carol :: uuid where "carol = UUID ''ca401''"
definition doc1 :: uuid where "doc1 = UUID ''d1''"
definition doc2 :: uuid where "doc2 = UUID ''d2''"

definition demo_user :: "uuid \<Rightarrow> string \<Rightarrow> User" where
  "demo_user i email =
     \<lparr> u_ID = i, u_Email = email, u_Password = ''$2a$10$hash'', u_Name = ''user'',
       u_CreatedAt = 1, u_UpdatedAt = 1 \<rparr>"

definition demo_doc :: "uuid \<Rightarrow> string \<Rightarrow> time option \<Rightarrow> Document" where
  "demo_doc i path deleted =
     \<lparr> d_ID = i, d_OwnerID = alice, d_Name = ''report'', d_OriginalName = ''report.pdf'',
       d_Size = 4, d_MimeType = ''application/pdf'', d_EncryptionAlgo = ''AES-256-GCM'',
       d_FilePath = path, d_IsEncrypted = False, d_CreatedAt = 10, d_UpdatedAt = 10,
       d_DeletedAt = deleted \<rparr>"

definition demo_share :: "uuid \<Rightarrow> uuid \<Rightarrow> string \<Rightarrow> time option \<Rightarrow> DocumentShare" where
  "demo_share i w perm expires =
     \<lparr> ds_ID = i, ds_DocumentID = doc1, ds_SharedByID = alice, ds_SharedWithID = w,
       ds_Permission = perm, ds_ExpiresAt = expires, ds_CreatedAt = 20 \<rparr>"

definition demo_store :: store where
  "demo_store =
     \<lparr> users = [demo_user alice ''alice@example.com'', demo_user bob ''bob@example.com'',
                 demo_user carol ''carol@example.com''],
       documents = [demo_doc doc1 ''uploads/d1'' None, demo_doc doc2 ''uploads/d2'' (Some 40)],
       document_shares = [demo_share (UUID ''s1'') bob ''view'' None,
                          demo_share (UUID ''s2'') carol ''edit'' (Some 50)],
       files = [''uploads/d1'' \<mapsto> ''data''] \<rparr>"

text \<open>
  A history that leaves a store of the same shape: Alice and Bob register, and Alice
  uploads a file that is stored as document \<open>d1\<close>.
\<close>

definition no_failures :: os_env where
  "no_failures = \<lparr> create_fails = False, copy_fails = False, remove_fails = False \<rparr>"

definition demo_history :: "call list" where
  "demo_history =
     [CallUserCreate alice 1 (Some ''$2a$10$hash'') ''alice@example.com'' ''Alice'',
      CallUserCreate bob 2 (Some ''$2a$10$hash'') ''bob@example.com'' ''Bob'',
      CallCreate no_failures doc1 10 alice ''../../../etc/passwd'' ''report.pdf''
        ''application/pdf'' 4 ''data'']"

definition demo_reached :: store where
  "demo_reached =
     \<lparr> users = [\<lparr> u_ID = alice, u_Email = ''alice@example.com'', u_Password = ''$2a$10$hash'',
                   u_Name = ''Alice'', u_CreatedAt = 1, u_UpdatedAt = 1 \<rparr>,
                 \<lparr> u_ID = bob, u_Email = ''bob@example.com'', u_Password = ''$2a$10$hash'',
                   u_Name = ''Bob'', u_CreatedAt = 2, u_UpdatedAt = 2 \<rparr>],
       documents = [\<lparr> d_ID = doc1, d_OwnerID = alice, d_Name = ''passwd'',
                       d_OriginalName = ''report.pdf'', d_Size = 4,
                       d_MimeType = ''application/pdf'', d_EncryptionAlgo = ''AES-256-GCM'',
                       d_FilePath = ''uploads/d1'', d_IsEncrypted = False, d_CreatedAt = 10,
                       d_UpdatedAt = 10, d_DeletedAt = None \<rparr>],
       document_shares = [],
       files = [''uploads/d1'' \<mapsto> ''data''] \<rparr>"

text \<open>The example store with both documents of Alice in place.\<close>

definition two_documents :: store where
  "two_documents =
     demo_store\<lparr>documents := [demo_doc doc1 ''uploads/d1'' None, demo_doc doc2 ''uploads/d2'' None]\<rparr>"

text \<open>A rank that makes no difference between the rows of a listing.\<close>

definition no_preference :: "'a \<Rightarrow> nat" where
  "no_preference row = 0"

text \<open>The history continued: Alice shares her document with Bob for viewing.\<close>

definition demo_shared_history :: "call list" where
  "demo_shared_history =
     demo_history @ [CallShare (UUID ''s1'') 20 doc1 alice ''bob@example.com'' ''view'']"

text \<open>Names at the width of the column \<open>name\<close>.\<close>

definition name255 :: string where
  "name255 = replicate 255 CHR ''a''"

definition name256 :: string where
  "name256 = replicate 256 CHR ''a''"

definition name255_padded :: string where
  "name255_padded = replicate 255 CHR ''a'' @ ''  ''"




section \<open>Evaluating the examples\<close>

lemmas demo_defs =
  alice_def bob_def carol_def doc1_def doc2_def demo_user_def demo_doc_def demo_share_def
  demo_store_def

lemma demo_ValidateContentType: "ValidateContentType ''application/pdf'' = None"
  by (simp add: ValidateContentType_def AllowedMIMETypes_def lower_byte_def strings_TrimSpace_def
      leading_space_def trailing_space_def asciiSpace_def unicodeSpaces_def)

lemma demo_filepath_Join: "filepath_Join ''uploads'' ''d1'' = ''uploads/d1''"
  by (simp add: filepath_Join_def filepath_Clean_def clean_element_def IsPathSeparator_def)

lemma demo_SanitizeFilename:
  "SanitizeFilename ''report.pdf'' = Inr ''report.pdf''"
  "SanitizeFilename ''../../../etc/passwd'' = Inr ''passwd''"
  by (simp_all add: SanitizeFilename_def stripped_name_def filepath_Base_def IsPathSeparator_def
      strings_ReplaceAll_def strings_TrimSpace_def leading_space_def trailing_space_def
      asciiSpace_def unicodeSpaces_def)

lemma demo_history_run: "run ''uploads'' empty_store demo_history = demo_reached"
  by (simp add: run_def demo_history_def demo_reached_def empty_store_def UserCreate_def
      GetByEmail_def Create_def demo_ValidateContentType demo_filepath_Join
      demo_SanitizeFilename Let_def no_failures_def alice_def bob_def doc1_def)

section \<open>Access decisions\<close>

lemma find_unique_key:
  assumes "distinct (map k xs)" and "x \<in> set xs" and "P x"
    and "\<And>y. y \<in> set xs \<Longrightarrow> P y \<Longrightarrow> k y = k x"
  shows "find P xs = Some x"
  using assms
proof (induction xs)
  case Nil
  then show ?case by simp
next
  case (Cons a xs)
  show ?case
  proof (cases "P a")
    case True
    have "k a = k x" by (rule Cons.prems(4)) (simp_all add: True)
    with Cons.prems(1,2) have "a = x" by (auto simp: image_iff)
    with True show ?thesis by simp
  next
    case False
    with Cons.prems(2,3) have mem: "x \<in> set xs" by auto
    have dist: "distinct (map k xs)" using Cons.prems(1) by simp
    have key: "\<And>y. y \<in> set xs \<Longrightarrow> P y \<Longrightarrow> k y = k x"
      by (rule Cons.prems(4)) simp_all
    have "find P xs = Some x"
      by (rule Cons.IH [OF dist mem Cons.prems(3) key])
    with False show ?thesis by simp
  qed
qed

lemma find_filter_irrelevant:
  assumes "\<And>x. x \<in> set xs \<Longrightarrow> P x \<Longrightarrow> Q x"
  shows "find P (filter Q xs) = find P xs"
  using assms by (induction xs) auto

text \<open>
  C1. For a document that \<open>GetByID\<close> finds (stored and not soft-deleted), \<open>CanAccess\<close>
  answers \<open>(true, "owner")\<close> to the owner; to anyone else it answers \<open>(true, p)\<close> when
  the share row of the pair is active (no expiry, or an expiry strictly after the time of
  evaluation), \<open>p\<close> being that row's permission, and \<open>(false, "")\<close> when the pair has
  no active row; all three without error. A share row whose expiry is not after the time
  of evaluation changes no answer: \<open>CanAccess\<close> returns the same in the store without
  that row.
\<close>

theorem C1_CanAccess_decision:
  assumes "GetByID s D = Inr doc"
  shows "(d_OwnerID doc = U \<longrightarrow> CanAccess s now D U = (True, ''owner'', None))
       \<and> (d_OwnerID doc \<noteq> U \<longrightarrow> shares_unique s \<longrightarrow>
            (\<forall>sh \<in> set (document_shares s). share_for D U sh \<and> share_active now sh \<longrightarrow>
               CanAccess s now D U = (True, ds_Permission sh, None)))
       \<and> (d_OwnerID doc \<noteq> U \<longrightarrow>
            (\<forall>sh \<in> set (document_shares s). share_for D U sh \<longrightarrow> \<not> share_active now sh) \<longrightarrow>
               CanAccess s now D U = (False, [], None))
       \<and> (\<forall>(sh::DocumentShare) e D' U'. ds_ExpiresAt sh = Some e \<and> e \<le> now \<longrightarrow>
            CanAccess (without_share sh s) now D' U' = CanAccess s now D' U')"
proof (intro conjI impI ballI allI)
  assume "d_OwnerID doc = U"
  with assms show "CanAccess s now D U = (True, ''owner'', None)"
    by (simp add: CanAccess_def)
next
  fix sh
  assume no: "d_OwnerID doc \<noteq> U" and uq: "shares_unique s"
    and mem: "sh \<in> set (document_shares s)"
    and act: "share_for D U sh \<and> share_active now sh"
  have "find (\<lambda>r. share_for D U r \<and> share_active now r) (document_shares s) = Some sh"
  proof (rule find_unique_key [where k = "\<lambda>r. (ds_DocumentID r, ds_SharedWithID r)"])
    show "distinct (map (\<lambda>r. (ds_DocumentID r, ds_SharedWithID r)) (document_shares s))"
      using uq by (simp add: shares_unique_def)
    show "sh \<in> set (document_shares s)" by (rule mem)
    show "share_for D U sh \<and> share_active now sh" by (rule act)
    fix y
    assume "share_for D U y \<and> share_active now y"
    with act show "(ds_DocumentID y, ds_SharedWithID y) = (ds_DocumentID sh, ds_SharedWithID sh)"
      by (simp add: share_for_def)
  qed
  with assms no show "CanAccess s now D U = (True, ds_Permission sh, None)"
    by (simp add: CanAccess_def)
next
  assume no: "d_OwnerID doc \<noteq> U"
    and none: "\<forall>sh \<in> set (document_shares s). share_for D U sh \<longrightarrow> \<not> share_active now sh"
  have "find (\<lambda>r. share_for D U r \<and> share_active now r) (document_shares s) = None"
    using none by (auto simp: find_None_iff)
  with assms no show "CanAccess s now D U = (False, [], None)"
    by (simp add: CanAccess_def)
next
  fix sh :: DocumentShare and e :: time and D' U' :: uuid
  assume ex: "ds_ExpiresAt sh = Some e \<and> e \<le> now"
  then have inact: "\<not> share_active now sh" by (simp add: share_active_def)
  have "find (\<lambda>r. share_for D' U' r \<and> share_active now r)
          (filter (\<lambda>r. r \<noteq> sh) (document_shares s))
      = find (\<lambda>r. share_for D' U' r \<and> share_active now r) (document_shares s)"
    by (rule find_filter_irrelevant) (use inact in auto)
  then show "CanAccess (without_share sh s) now D' U' = CanAccess s now D' U'"
    by (simp add: CanAccess_def GetByID_def without_share_def split: option.split)
qed

theorem C1_CanAccess_decision_witness:
  "GetByID demo_store doc1 = Inr (demo_doc doc1 ''uploads/d1'' None)
   \<and> CanAccess demo_store 30 doc1 alice = (True, ''owner'', None)
   \<and> CanAccess demo_store 30 doc1 bob = (True, ''view'', None)
   \<and> CanAccess demo_store 30 doc1 carol = (True, ''edit'', None)
   \<and> CanAccess demo_store 50 doc1 carol = (False, [], None)
   \<and> CanAccess (without_share (demo_share (UUID ''s2'') carol ''edit'' (Some 50)) demo_store) 50 doc1 carol
        = (False, [], None)"
proof -
  have live: "GetByID demo_store doc1 = Inr (demo_doc doc1 ''uploads/d1'' None)"
    by (simp add: GetByID_def demo_defs)
  have uq: "shares_unique demo_store"
    by (simp add: shares_unique_def demo_defs)
  have owner: "d_OwnerID (demo_doc doc1 ''uploads/d1'' None) = alice"
    and others: "d_OwnerID (demo_doc doc1 ''uploads/d1'' None) \<noteq> bob"
      "d_OwnerID (demo_doc doc1 ''uploads/d1'' None) \<noteq> carol"
    by (simp_all add: demo_defs)
  have rows: "document_shares demo_store =
      [demo_share (UUID ''s1'') bob ''view'' None, demo_share (UUID ''s2'') carol ''edit'' (Some 50)]"
    by (simp add: demo_store_def)
  have a: "CanAccess demo_store 30 doc1 alice = (True, ''owner'', None)"
    using C1_CanAccess_decision [OF live, of alice 30] owner by simp
  have b: "CanAccess demo_store 30 doc1 bob = (True, ''view'', None)"
    using C1_CanAccess_decision [OF live, of bob 30] others uq
    by (simp add: rows share_for_def share_active_def demo_share_def doc1_def bob_def carol_def)
  have c: "CanAccess demo_store 30 doc1 carol = (True, ''edit'', None)"
    using C1_CanAccess_decision [OF live, of carol 30] others uq
    by (simp add: rows share_for_def share_active_def demo_share_def doc1_def bob_def carol_def)
  have d: "CanAccess demo_store 50 doc1 carol = (False, [], None)"
    using C1_CanAccess_decision [OF live, of carol 50] others
    by (simp add: rows share_for_def share_active_def demo_share_def doc1_def bob_def carol_def)
  have e: "CanAccess (without_share (demo_share (UUID ''s2'') carol ''edit'' (Some 50)) demo_store) 50 doc1 carol
      = CanAccess demo_store 50 doc1 carol"
    using C1_CanAccess_decision [OF live, of alice 50]
    by (simp add: demo_share_def)
  from live a b c d e show ?thesis by simp
qed

section \<open>One share row per document and recipient\<close>

lemma share_for_key: "share_for d w r \<longleftrightarrow> share_key r = (d, w)"
  by (auto simp: share_for_def share_key_def)

lemma shares_unique_key: "shares_unique s \<longleftrightarrow> distinct (map share_key (document_shares s))"
  by (simp add: shares_unique_def share_key_def [abs_def])

lemma filter_key_single:
  "distinct (map f xs) \<Longrightarrow> x \<in> set xs \<Longrightarrow> filter (\<lambda>y. f y = f x) xs = [x]"
proof (induction xs)
  case Nil
  then show ?case by simp
next
  case (Cons a xs)
  show ?case
  proof (cases "a = x")
    case True
    have "f x \<notin> f ` set xs" using Cons.prems(1) True by simp
    then have "\<forall>y \<in> set xs. f y \<noteq> f x" by (metis imageI)
    then have "filter (\<lambda>y. f y = f x) xs = []"
      by (simp add: filter_empty_conv)
    with True show ?thesis by simp
  next
    case False
    with Cons.prems(2) have mem: "x \<in> set xs" by simp
    have "f a \<notin> f ` set xs" using Cons.prems(1) by simp
    with mem have "f a \<noteq> f x" by auto
    moreover have "filter (\<lambda>y. f y = f x) xs = [x]"
      using Cons.IH Cons.prems(1) mem by simp
    ultimately show ?thesis by simp
  qed
qed

lemma upsert_share_keys:
  assumes "upsert_share i t d b w p rows = Some rows'" and "distinct (map share_key rows)"
  shows "distinct (map share_key rows')"
proof (cases "\<exists>r \<in> set rows. share_for d w r")
  case True
  with assms(1) have "rows' = map (\<lambda>r. if share_for d w r then r\<lparr>ds_Permission := p\<rparr> else r) rows"
    by (simp add: upsert_share_def)
  then have "map share_key rows' = map share_key rows"
    by (simp add: share_key_def comp_def if_distrib cong: if_cong)
  with assms(2) show ?thesis by simp
next
  case False
  with assms(1) have "rows' = rows @ [\<lparr> ds_ID = i, ds_DocumentID = d, ds_SharedByID = b,
      ds_SharedWithID = w, ds_Permission = p, ds_ExpiresAt = None, ds_CreatedAt = t \<rparr>]"
    by (simp add: upsert_share_def split: if_splits)
  moreover have "(d, w) \<notin> share_key ` set rows"
    using False by (auto simp: share_for_key)
  ultimately show ?thesis using assms(2) by (simp add: share_key_def)
qed

lemma upsert_share_has_row:
  assumes "upsert_share i t d b w p rows = Some rows'"
  shows "\<exists>r \<in> set rows'. share_for d w r"
proof (cases "\<exists>r \<in> set rows. share_for d w r")
  case True
  then obtain r where "r \<in> set rows" "share_for d w r" by blast
  moreover from True assms
  have "rows' = map (\<lambda>r. if share_for d w r then r\<lparr>ds_Permission := p\<rparr> else r) rows"
    by (simp add: upsert_share_def)
  ultimately have "r\<lparr>ds_Permission := p\<rparr> \<in> set rows'" by force
  moreover have "share_for d w (r\<lparr>ds_Permission := p\<rparr>)"
    using \<open>share_for d w r\<close> by (simp add: share_for_def)
  ultimately show ?thesis by blast
next
  case False
  with assms show ?thesis
    by (auto simp: upsert_share_def share_for_def split: if_splits)
qed

lemma Share_shares_unique: "shares_unique s \<Longrightarrow> shares_unique (fst (Share s i t d owner email p))"
  by (auto simp: Share_def shares_unique_key split: sum.splits option.splits
           dest: upsert_share_keys)

lemma RemoveShare_shares_unique: "shares_unique s \<Longrightarrow> shares_unique (fst (RemoveShare s d owner w))"
  by (auto simp: RemoveShare_def shares_unique_key Let_def distinct_map_filter split: sum.splits)

lemma Create_document_shares:
  "document_shares (fst (Create dir s env i t owner name orig mime sz data)) = document_shares s"
  by (simp add: Create_def Let_def split: option.splits sum.splits)

lemma Delete_document_shares: "document_shares (fst (Delete s env t i u)) = document_shares s"
  by (simp add: Delete_def Let_def split: sum.splits prod.splits)

lemma Rename_document_shares: "document_shares (fst (Rename s t i u name)) = document_shares s"
  by (simp add: Rename_def split: prod.splits option.splits)

lemma UserCreate_document_shares:
  "document_shares (fst (UserCreate s i t h email name)) = document_shares s"
  by (simp add: UserCreate_def Let_def split: sum.splits option.splits)

lemma UpdateName_document_shares: "document_shares (fst (UpdateName s t i name)) = document_shares s"
  by (simp add: UpdateName_def Let_def)

lemma exec_shares_unique: "shares_unique s \<Longrightarrow> shares_unique (exec dir s c)"
proof (cases c)
  case (CallShare i t d owner email p)
  then show "shares_unique s \<Longrightarrow> shares_unique (exec dir s c)"
    by (simp add: Share_shares_unique)
next
  case (CallRemoveShare d owner w)
  then show "shares_unique s \<Longrightarrow> shares_unique (exec dir s c)"
    by (simp add: RemoveShare_shares_unique)
qed (simp_all add: shares_unique_def Create_document_shares Delete_document_shares
       Rename_document_shares UserCreate_document_shares UpdateName_document_shares)

lemma run_shares_unique: "shares_unique s \<Longrightarrow> shares_unique (run dir s cs)"
  unfolding run_def
  by (induction cs arbitrary: s) (simp_all add: exec_shares_unique)

lemma empty_store_shares_unique: "shares_unique empty_store"
  by (simp add: shares_unique_def empty_store_def)

text \<open>What a successful \<open>Share\<close> has found, and what it leaves.\<close>

lemma Share_success:
  assumes "Share s i t d owner email p = (s', None)"
  obtains doc u rows where "GetByID s d = Inr doc" and "d_OwnerID doc = owner"
    and "find (\<lambda>u. u_Email u = email) (users s) = Some u"
    and "upsert_share i t d owner (u_ID u) p (document_shares s) = Some rows"
    and "s' = s\<lparr>document_shares := rows\<rparr>"
  using assms
  by (auto simp: Share_def split: sum.splits option.splits if_splits)

text \<open>
  C3. In every store that a history of calls leaves, starting from the empty tables, no
  two share rows have the same document and recipient. If \<open>Share\<close> of a document to a
  recipient succeeds there, the same \<open>Share\<close> with another permission succeeds too,
  adds no row and overwrites the permission of the rows of the pair, and afterwards the
  pair has exactly one row, with the second permission.
\<close>

theorem C3_one_share_row_per_pair:
  "shares_unique (run dir empty_store cs)
   \<and> (Share (run dir empty_store cs) i1 t1 D owner email p1 = (s1, None) \<longrightarrow>
        (\<exists>V r. GetByEmail (run dir empty_store cs) email = Inr V
           \<and> snd (Share s1 i2 t2 D owner email p2) = None
           \<and> document_shares (fst (Share s1 i2 t2 D owner email p2))
               = map (\<lambda>r. if share_for D (u_ID V) r then r\<lparr>ds_Permission := p2\<rparr> else r)
                   (document_shares s1)
           \<and> filter (share_for D (u_ID V)) (document_shares (fst (Share s1 i2 t2 D owner email p2))) = [r]
           \<and> ds_Permission r = p2))"
proof (intro conjI impI)
  let ?s = "run dir empty_store cs"
  show uq: "shares_unique ?s"
    by (rule run_shares_unique [OF empty_store_shares_unique])
  assume first: "Share ?s i1 t1 D owner email p1 = (s1, None)"
  then obtain doc u rows where live: "GetByID ?s D = Inr doc" and own: "d_OwnerID doc = owner"
    and usr: "find (\<lambda>u. u_Email u = email) (users ?s) = Some u"
    and ups: "upsert_share i1 t1 D owner (u_ID u) p1 (document_shares ?s) = Some rows"
    and s1: "s1 = ?s\<lparr>document_shares := rows\<rparr>"
    by (rule Share_success)
  have has: "\<exists>r \<in> set rows. share_for D (u_ID u) r"
    by (rule upsert_share_has_row [OF ups])
  have dist: "distinct (map share_key rows)"
    using upsert_share_keys [OF ups] uq by (simp add: shares_unique_key)
  let ?upd = "\<lambda>r. if share_for D (u_ID u) r then r\<lparr>ds_Permission := p2\<rparr> else r"
  have second: "Share s1 i2 t2 D owner email p2 = (s1\<lparr>document_shares := map ?upd rows\<rparr>, None)"
    using live own usr has by (simp add: Share_def s1 GetByID_def upsert_share_def)
  from has obtain r0 where r0: "r0 \<in> set rows" "share_for D (u_ID u) r0" by blast
  have keys: "map share_key (map ?upd rows) = map share_key rows"
    by (simp add: share_key_def comp_def if_distrib cong: if_cong)
  have dist': "distinct (map share_key (map ?upd rows))"
    by (simp only: keys dist)
  have mem': "?upd r0 \<in> set (map ?upd rows)"
    using r0(1) by (simp only: set_map) (rule imageI)
  have eq2: "share_key (?upd r0) = (D, u_ID u)"
    using r0(2) by (simp add: share_for_key share_key_def)
  have fk: "share_for D (u_ID u) = (\<lambda>y. share_key y = (D, u_ID u))"
    by (rule ext) (rule share_for_key)
  have "filter (\<lambda>y. share_key y = share_key (?upd r0)) (map ?upd rows) = [?upd r0]"
    by (rule filter_key_single [OF dist' mem'])
  then have "filter (\<lambda>y. share_key y = (D, u_ID u)) (map ?upd rows) = [?upd r0]"
    by (simp only: eq2)
  then have single: "filter (share_for D (u_ID u)) (map ?upd rows) = [?upd r0]"
    by (simp only: fk)
  have "GetByEmail ?s email = Inr u"
    using usr by (simp add: GetByEmail_def)
  moreover have "snd (Share s1 i2 t2 D owner email p2) = None"
    by (simp add: second)
  moreover have "document_shares (fst (Share s1 i2 t2 D owner email p2)) = map ?upd (document_shares s1)"
  proof -
    have "document_shares s1 = rows" by (simp add: s1)
    then show ?thesis by (simp add: second)
  qed
  moreover have "filter (share_for D (u_ID u)) (document_shares (fst (Share s1 i2 t2 D owner email p2)))
      = [?upd r0]"
    by (simp add: second single)
  moreover have "ds_Permission (?upd r0) = p2"
    using r0(2) by simp
  ultimately show "\<exists>V r. GetByEmail ?s email = Inr V
           \<and> snd (Share s1 i2 t2 D owner email p2) = None
           \<and> document_shares (fst (Share s1 i2 t2 D owner email p2))
               = map (\<lambda>r. if share_for D (u_ID V) r then r\<lparr>ds_Permission := p2\<rparr> else r)
                   (document_shares s1)
           \<and> filter (share_for D (u_ID V)) (document_shares (fst (Share s1 i2 t2 D owner email p2))) = [r]
           \<and> ds_Permission r = p2"
    by blast
qed

theorem C3_one_share_row_per_pair_witness:
  "shares_unique (run ''uploads'' empty_store demo_history)
   \<and> Share (run ''uploads'' empty_store demo_history) (UUID ''s1'') 20 doc1 alice
        ''bob@example.com'' ''view''
       = (demo_reached\<lparr>document_shares := [demo_share (UUID ''s1'') bob ''view'' None]\<rparr>, None)
   \<and> Share (demo_reached\<lparr>document_shares := [demo_share (UUID ''s1'') bob ''view'' None]\<rparr>)
        (UUID ''s2'') 21 doc1 alice ''bob@example.com'' ''edit''
       = (demo_reached\<lparr>document_shares := [demo_share (UUID ''s1'') bob ''edit'' None]\<rparr>, None)
   \<and> (\<exists>r. filter (share_for doc1 bob)
              (document_shares (fst (Share
                 (demo_reached\<lparr>document_shares := [demo_share (UUID ''s1'') bob ''view'' None]\<rparr>)
                 (UUID ''s2'') 21 doc1 alice ''bob@example.com'' ''edit''))) = [r]
          \<and> ds_Permission r = ''edit'')"
proof -
  let ?s1 = "demo_reached\<lparr>document_shares := [demo_share (UUID ''s1'') bob ''view'' None]\<rparr>"
  have first: "Share (run ''uploads'' empty_store demo_history) (UUID ''s1'') 20 doc1 alice
      ''bob@example.com'' ''view'' = (?s1, None)"
    by (simp add: demo_history_run Share_def GetByID_def upsert_share_def share_for_def
        demo_reached_def demo_share_def alice_def bob_def doc1_def)
  have second: "Share ?s1 (UUID ''s2'') 21 doc1 alice ''bob@example.com'' ''edit''
      = (demo_reached\<lparr>document_shares := [demo_share (UUID ''s1'') bob ''edit'' None]\<rparr>, None)"
    by (simp add: Share_def GetByID_def upsert_share_def share_for_def
        demo_reached_def demo_share_def alice_def bob_def doc1_def)
  have who: "GetByEmail (run ''uploads'' empty_store demo_history) ''bob@example.com'' = Inr V
      \<Longrightarrow> u_ID V = bob" for V
    by (auto simp: demo_history_run GetByEmail_def demo_reached_def alice_def bob_def)
  from C3_one_share_row_per_pair [of "''uploads''" demo_history "UUID ''s1''" 20 doc1 alice
      "''bob@example.com''" "''view''" ?s1 "UUID ''s2''" 21 "''edit''"] first
  have uq: "shares_unique (run ''uploads'' empty_store demo_history)"
    and ex: "\<exists>V r. GetByEmail (run ''uploads'' empty_store demo_history) ''bob@example.com'' = Inr V
      \<and> filter (share_for doc1 (u_ID V))
           (document_shares (fst (Share ?s1 (UUID ''s2'') 21 doc1 alice ''bob@example.com'' ''edit''))) = [r]
      \<and> ds_Permission r = ''edit''"
    by blast+
  from ex obtain V r
    where g: "GetByEmail (run ''uploads'' empty_store demo_history) ''bob@example.com'' = Inr V"
      and f: "filter (share_for doc1 (u_ID V))
           (document_shares (fst (Share ?s1 (UUID ''s2'') 21 doc1 alice ''bob@example.com'' ''edit''))) = [r]"
      and p: "ds_Permission r = ''edit''"
    by (elim exE conjE)
  have "u_ID V = bob" by (rule who [OF g])
  with f p have "\<exists>r. filter (share_for doc1 bob)
       (document_shares (fst (Share ?s1 (UUID ''s2'') 21 doc1 alice ''bob@example.com'' ''edit''))) = [r]
      \<and> ds_Permission r = ''edit''"
    by auto
  with uq first second show ?thesis by (intro conjI)
qed

section \<open>Renaming\<close>

lemma GetByID_Inr_iff:
  "GetByID s D = Inr doc \<longleftrightarrow>
     find (\<lambda>d. d_ID d = D \<and> d_DeletedAt d = None) (documents s) = Some doc"
  by (simp add: GetByID_def split: option.splits)

lemma GetByID_found: "GetByID s D = Inr doc \<Longrightarrow> d_ID doc = D \<and> d_DeletedAt doc = None \<and> doc \<in> set (documents s)"
  by (auto simp: GetByID_Inr_iff find_Some_iff)

lemma find_map_preserved:
  assumes "\<And>x. P (f x) = P x"
  shows "find P (map f xs) = map_option f (find P xs)"
  by (induction xs) (simp_all add: assms)

lemma CanAccess_owner:
  "GetByID s D = Inr doc \<Longrightarrow> d_OwnerID doc = U \<Longrightarrow> CanAccess s now D U = (True, ''owner'', None)"
  by (simp add: CanAccess_def)

lemma CanAccess_shared:
  assumes "GetByID s D = Inr doc" and "d_OwnerID doc \<noteq> U" and "shares_unique s"
    and "sh \<in> set (document_shares s)" and "share_for D U sh" and "share_active now sh"
  shows "CanAccess s now D U = (True, ds_Permission sh, None)"
proof -
  have "find (\<lambda>r. share_for D U r \<and> share_active now r) (document_shares s) = Some sh"
  proof (rule find_unique_key [where k = share_key])
    show "distinct (map share_key (document_shares s))"
      using assms(3) by (simp add: shares_unique_def share_key_def [abs_def])
    show "sh \<in> set (document_shares s)" by (rule assms(4))
    show "share_for D U sh \<and> share_active now sh" using assms(5,6) by simp
    fix y
    assume "share_for D U y \<and> share_active now y"
    with assms(5) show "share_key y = share_key sh"
      by (simp add: share_for_def share_key_def)
  qed
  with assms(1,2) show ?thesis by (simp add: CanAccess_def)
qed

lemma CanAccess_unshared:
  assumes "GetByID s D = Inr doc" and "d_OwnerID doc \<noteq> U"
    and "\<forall>sh \<in> set (document_shares s). share_for D U sh \<longrightarrow> \<not> share_active now sh"
  shows "CanAccess s now D U = (False, [], None)"
proof -
  have "find (\<lambda>r. share_for D U r \<and> share_active now r) (document_shares s) = None"
    using assms(3) by (auto simp: find_None_iff)
  with assms(1,2) show ?thesis by (simp add: CanAccess_def)
qed

lemma ascii_utf8_chars:
  "\<forall>c \<in> set v. 0 < byte c \<and> byte c < 0x80 \<Longrightarrow> utf8_chars v = Some (map (\<lambda>c. [c]) v)"
proof (induction v)
  case Nil
  show ?case by (subst utf8_chars.simps) simp
next
  case (Cons a v)
  then have w: "utf8_width (a # v) = 1"
    by (simp add: utf8_width_def)
  from Cons have "utf8_chars v = Some (map (\<lambda>c. [c]) v)" by simp
  then show ?case by (subst utf8_chars.simps) (simp add: w)
qed

lemma varchar_ascii:
  assumes "\<forall>c \<in> set v. 0 < byte c \<and> byte c < 0x80" and "length v \<le> n"
  shows "varchar n v = Some v"
  using assms(2) by (simp add: varchar_def ascii_utf8_chars [OF assms(1)])

lemma GetByID_set_name:
  assumes "GetByID s D = Inr doc"
  shows "GetByID (s\<lparr>documents := set_name newName now D (documents s)\<rparr>) D
           = Inr (doc\<lparr>d_Name := newName, d_UpdatedAt := now\<rparr>)"
proof -
  let ?f = "\<lambda>d. if d_ID d = D then d\<lparr>d_Name := newName, d_UpdatedAt := now\<rparr> else d"
  have "find (\<lambda>d. d_ID d = D \<and> d_DeletedAt d = None) (map ?f (documents s))
      = map_option ?f (find (\<lambda>d. d_ID d = D \<and> d_DeletedAt d = None) (documents s))"
    by (rule find_map_preserved) simp
  moreover have "d_ID doc = D" using GetByID_found [OF assms] by simp
  ultimately show ?thesis
    using assms by (simp add: GetByID_def set_name_def split: option.splits)
qed

text \<open>
  C4, as the code has it. For a document that \<open>GetByID\<close> finds and a caller other than
  its owner, \<open>Rename\<close> fails with \<open>ErrAccessDenied\<close> and leaves the store as it is
  when the caller's active share has the permission \<open>view\<close>, and when the caller has
  no active share. For the owner, and for a caller whose active share has the permission
  \<open>edit\<close>, the outcome is that of the \<open>UPDATE\<close>: when the column
  \<open>name VARCHAR(255)\<close> accepts the new name, \<open>Rename\<close> succeeds and the document
  carries the name as stored; when the column refuses it, \<open>Rename\<close> returns the
  database's error and the store stays as it is. A name of at most 255 bytes, all of them
  ASCII and none of them null, is accepted and stored as it is.
\<close>

theorem C4_Rename_permission:
  assumes "GetByID s D = Inr doc" and "shares_unique s"
  shows "(d_OwnerID doc \<noteq> U \<longrightarrow>
            (\<forall>sh \<in> set (document_shares s).
               share_for D U sh \<and> share_active now sh \<and> ds_Permission sh = ''view'' \<longrightarrow>
                 Rename s now D U newName = (s, Some ErrAccessDenied)))
       \<and> (d_OwnerID doc \<noteq> U \<longrightarrow>
            (\<forall>sh \<in> set (document_shares s). share_for D U sh \<longrightarrow> \<not> share_active now sh) \<longrightarrow>
               Rename s now D U newName = (s, Some ErrAccessDenied))
       \<and> (d_OwnerID doc = U
            \<or> (\<exists>sh \<in> set (document_shares s).
                  share_for D U sh \<and> share_active now sh \<and> ds_Permission sh = ''edit'') \<longrightarrow>
            (\<forall>stored. varchar 255 newName = Some stored \<longrightarrow>
               Rename s now D U newName
                 = (s\<lparr>documents := set_name stored now D (documents s)\<rparr>, None)
               \<and> GetByID (fst (Rename s now D U newName)) D
                 = Inr (doc\<lparr>d_Name := stored, d_UpdatedAt := now\<rparr>))
            \<and> (varchar 255 newName = None \<longrightarrow>
                 Rename s now D U newName = (s, Some ErrExternal))
            \<and> ((\<forall>c \<in> set newName. 0 < byte c \<and> byte c < 0x80) \<and> length newName \<le> 255 \<longrightarrow>
                 Rename s now D U newName
                   = (s\<lparr>documents := set_name newName now D (documents s)\<rparr>, None)
                 \<and> GetByID (fst (Rename s now D U newName)) D
                   = Inr (doc\<lparr>d_Name := newName, d_UpdatedAt := now\<rparr>)))"
proof -
  have view: "Rename s now D U newName = (s, Some ErrAccessDenied)"
    if "d_OwnerID doc \<noteq> U" and "sh \<in> set (document_shares s)"
      and "share_for D U sh \<and> share_active now sh \<and> ds_Permission sh = ''view''" for sh
  proof -
    have "CanAccess s now D U = (True, ''view'', None)"
      using CanAccess_shared [OF assms(1) that(1) assms(2) that(2), of now] that(3) by simp
    then show ?thesis by (simp add: Rename_def)
  qed
  have none: "Rename s now D U newName = (s, Some ErrAccessDenied)"
    if "d_OwnerID doc \<noteq> U"
      and "\<forall>sh \<in> set (document_shares s). share_for D U sh \<longrightarrow> \<not> share_active now sh"
  proof -
    have "CanAccess s now D U = (False, [], None)"
      by (rule CanAccess_unshared [OF assms(1) that])
    then show ?thesis by (simp add: Rename_def)
  qed
  have may: "CanAccess s now D U = (True, ''owner'', None)
        \<or> CanAccess s now D U = (True, ''edit'', None)"
    if allowed: "d_OwnerID doc = U
      \<or> (\<exists>sh \<in> set (document_shares s).
            share_for D U sh \<and> share_active now sh \<and> ds_Permission sh = ''edit'')"
  proof (cases "d_OwnerID doc = U")
    case True
    then show ?thesis using CanAccess_owner [OF assms(1)] by simp
  next
    case False
    with allowed obtain sh where sh: "sh \<in> set (document_shares s)" "share_for D U sh"
      "share_active now sh" "ds_Permission sh = ''edit''" by blast
    show ?thesis
      using CanAccess_shared [OF assms(1) False assms(2) sh(1,2,3)] sh(4) by simp
  qed
  have stored: "Rename s now D U newName
                 = (s\<lparr>documents := set_name n now D (documents s)\<rparr>, None)
               \<and> GetByID (fst (Rename s now D U newName)) D
                 = Inr (doc\<lparr>d_Name := n, d_UpdatedAt := now\<rparr>)"
    if allowed: "d_OwnerID doc = U
      \<or> (\<exists>sh \<in> set (document_shares s).
            share_for D U sh \<and> share_active now sh \<and> ds_Permission sh = ''edit'')"
      and fits: "varchar 255 newName = Some n" for n
  proof -
    from may [OF allowed] have ren: "Rename s now D U newName
        = (s\<lparr>documents := set_name n now D (documents s)\<rparr>, None)"
      by (auto simp: Rename_def fits)
    moreover have "GetByID (fst (Rename s now D U newName)) D
        = Inr (doc\<lparr>d_Name := n, d_UpdatedAt := now\<rparr>)"
      by (simp add: ren GetByID_set_name [OF assms(1)])
    ultimately show ?thesis by simp
  qed
  have refused: "Rename s now D U newName = (s, Some ErrExternal)"
    if allowed: "d_OwnerID doc = U
      \<or> (\<exists>sh \<in> set (document_shares s).
            share_for D U sh \<and> share_active now sh \<and> ds_Permission sh = ''edit'')"
      and "varchar 255 newName = None"
    using may [OF allowed] that(2) by (auto simp: Rename_def)
  show ?thesis
  proof (intro conjI)
    show "d_OwnerID doc \<noteq> U \<longrightarrow>
            (\<forall>sh \<in> set (document_shares s).
               share_for D U sh \<and> share_active now sh \<and> ds_Permission sh = ''view'' \<longrightarrow>
                 Rename s now D U newName = (s, Some ErrAccessDenied))"
      using view by blast
    show "d_OwnerID doc \<noteq> U \<longrightarrow>
            (\<forall>sh \<in> set (document_shares s). share_for D U sh \<longrightarrow> \<not> share_active now sh) \<longrightarrow>
               Rename s now D U newName = (s, Some ErrAccessDenied)"
      using none by blast
    show "d_OwnerID doc = U
            \<or> (\<exists>sh \<in> set (document_shares s).
                  share_for D U sh \<and> share_active now sh \<and> ds_Permission sh = ''edit'') \<longrightarrow>
            (\<forall>stored. varchar 255 newName = Some stored \<longrightarrow>
               Rename s now D U newName
                 = (s\<lparr>documents := set_name stored now D (documents s)\<rparr>, None)
               \<and> GetByID (fst (Rename s now D U newName)) D
                 = Inr (doc\<lparr>d_Name := stored, d_UpdatedAt := now\<rparr>))
            \<and> (varchar 255 newName = None \<longrightarrow>
                 Rename s now D U newName = (s, Some ErrExternal))
            \<and> ((\<forall>c \<in> set newName. 0 < byte c \<and> byte c < 0x80) \<and> length newName \<le> 255 \<longrightarrow>
                 Rename s now D U newName
                   = (s\<lparr>documents := set_name newName now D (documents s)\<rparr>, None)
                 \<and> GetByID (fst (Rename s now D U newName)) D
                   = Inr (doc\<lparr>d_Name := newName, d_UpdatedAt := now\<rparr>))"
    proof (intro impI conjI allI)
      fix n
      assume "d_OwnerID doc = U
            \<or> (\<exists>sh \<in> set (document_shares s).
                  share_for D U sh \<and> share_active now sh \<and> ds_Permission sh = ''edit'')"
        and "varchar 255 newName = Some n"
      then have both: "Rename s now D U newName
                 = (s\<lparr>documents := set_name n now D (documents s)\<rparr>, None)
               \<and> GetByID (fst (Rename s now D U newName)) D
                 = Inr (doc\<lparr>d_Name := n, d_UpdatedAt := now\<rparr>)"
        by (rule stored)
      from both show "Rename s now D U newName
                 = (s\<lparr>documents := set_name n now D (documents s)\<rparr>, None)" ..
      from both show "GetByID (fst (Rename s now D U newName)) D
                 = Inr (doc\<lparr>d_Name := n, d_UpdatedAt := now\<rparr>)" ..
    next
      assume "d_OwnerID doc = U
            \<or> (\<exists>sh \<in> set (document_shares s).
                  share_for D U sh \<and> share_active now sh \<and> ds_Permission sh = ''edit'')"
        and "varchar 255 newName = None"
      then show "Rename s now D U newName = (s, Some ErrExternal)"
        by (rule refused)
    next
      assume allowed: "d_OwnerID doc = U
            \<or> (\<exists>sh \<in> set (document_shares s).
                  share_for D U sh \<and> share_active now sh \<and> ds_Permission sh = ''edit'')"
        and plain: "(\<forall>c \<in> set newName. 0 < byte c \<and> byte c < 0x80) \<and> length newName \<le> 255"
      from plain have "varchar 255 newName = Some newName"
        by (simp add: varchar_ascii)
      with allowed have both: "Rename s now D U newName
                 = (s\<lparr>documents := set_name newName now D (documents s)\<rparr>, None)
               \<and> GetByID (fst (Rename s now D U newName)) D
                 = Inr (doc\<lparr>d_Name := newName, d_UpdatedAt := now\<rparr>)"
        by (rule stored)
      from both show "Rename s now D U newName
                 = (s\<lparr>documents := set_name newName now D (documents s)\<rparr>, None)" ..
      from both show "GetByID (fst (Rename s now D U newName)) D
                 = Inr (doc\<lparr>d_Name := newName, d_UpdatedAt := now\<rparr>)" ..
    qed
  qed
qed

lemma demo_store_live: "GetByID demo_store doc1 = Inr (demo_doc doc1 ''uploads/d1'' None)"
  by (simp add: GetByID_def demo_defs)

lemma demo_store_unique: "shares_unique demo_store"
  by (simp add: shares_unique_def demo_defs)

lemma demo_store_shares:
  "document_shares demo_store =
     [demo_share (UUID ''s1'') bob ''view'' None, demo_share (UUID ''s2'') carol ''edit'' (Some 50)]"
  by (simp add: demo_store_def)

lemma demo_varchar:
  "varchar 255 ''minutes'' = Some ''minutes''"
  "varchar 255 name256 = None"
  "varchar 255 name255_padded = Some name255"
  by code_simp+

theorem C4_Rename_permission_witness:
  "GetByID demo_store doc1 = Inr (demo_doc doc1 ''uploads/d1'' None) \<and> shares_unique demo_store
   \<and> Rename demo_store 30 doc1 bob ''minutes'' = (demo_store, Some ErrAccessDenied)
   \<and> Rename demo_store 60 doc1 carol ''minutes'' = (demo_store, Some ErrAccessDenied)
   \<and> snd (Rename demo_store 30 doc1 alice ''minutes'') = None
   \<and> snd (Rename demo_store 30 doc1 carol ''minutes'') = None
   \<and> GetByID (fst (Rename demo_store 30 doc1 carol ''minutes'')) doc1
       = Inr ((demo_doc doc1 ''uploads/d1'' None)\<lparr>d_Name := ''minutes'', d_UpdatedAt := 30\<rparr>)
   \<and> Rename demo_store 30 doc1 carol name256 = (demo_store, Some ErrExternal)
   \<and> GetByID (fst (Rename demo_store 30 doc1 alice name255_padded)) doc1
       = Inr ((demo_doc doc1 ''uploads/d1'' None)
                \<lparr>d_Name := name255, d_UpdatedAt := 30\<rparr>)"
proof -
  note ev = demo_store_shares share_for_def share_active_def demo_share_def demo_doc_def
    alice_def bob_def carol_def doc1_def
  have ascii: "(\<forall>c \<in> set ''minutes''. 0 < byte c \<and> byte c < 0x80) \<and> length ''minutes'' \<le> 255"
    by (simp add: byte_def)
  have "Rename demo_store 30 doc1 bob ''minutes'' = (demo_store, Some ErrAccessDenied)"
    using C4_Rename_permission [OF demo_store_live demo_store_unique, of bob 30 "''minutes''"]
    by (simp add: ev)
  moreover have "Rename demo_store 60 doc1 carol ''minutes'' = (demo_store, Some ErrAccessDenied)"
    using C4_Rename_permission [OF demo_store_live demo_store_unique, of carol 60 "''minutes''"]
    by (simp add: ev)
  moreover have "snd (Rename demo_store 30 doc1 alice ''minutes'') = None"
    using C4_Rename_permission [OF demo_store_live demo_store_unique, of alice 30 "''minutes''"]
      ascii by (clarsimp simp: ev)
  moreover have "snd (Rename demo_store 30 doc1 carol ''minutes'') = None
     \<and> GetByID (fst (Rename demo_store 30 doc1 carol ''minutes'')) doc1
       = Inr ((demo_doc doc1 ''uploads/d1'' None)\<lparr>d_Name := ''minutes'', d_UpdatedAt := 30\<rparr>)"
    using C4_Rename_permission [OF demo_store_live demo_store_unique, of carol 30 "''minutes''"]
      demo_varchar(1) by (clarsimp simp: ev)
  moreover have "Rename demo_store 30 doc1 carol name256 = (demo_store, Some ErrExternal)"
    using C4_Rename_permission [OF demo_store_live demo_store_unique, of carol 30
        name256] demo_varchar(2) by (clarsimp simp: ev)
  moreover have "GetByID (fst (Rename demo_store 30 doc1 alice name255_padded)) doc1
       = Inr ((demo_doc doc1 ''uploads/d1'' None)
                \<lparr>d_Name := name255, d_UpdatedAt := 30\<rparr>)"
    using C4_Rename_permission [OF demo_store_live demo_store_unique, of alice 30
        name255_padded] demo_varchar(3) by (clarsimp simp: ev)
  ultimately show ?thesis
    using demo_store_live demo_store_unique by simp
qed

text \<open>
  The specification's sentence on renaming fails on a name the column refuses: the owner
  of the first document, renaming it to a name of 256 letters, gets the database's error.
\<close>

theorem C4_long_name_counterexample:
  "CanAccess demo_store 30 doc1 alice = (True, ''owner'', None)
   \<and> Rename demo_store 30 doc1 alice name256 = (demo_store, Some ErrExternal)"
proof -
  have "CanAccess demo_store 30 doc1 alice = (True, ''owner'', None)"
    by (simp add: CanAccess_def GetByID_def demo_defs)
  then show ?thesis
    by (simp add: Rename_def demo_varchar(2))
qed

section \<open>Soft deletion\<close>

text \<open>
  A document identifier is deleted in a store when it has a row and every row of it
  carries a deletion time. No call of the services undoes that: no statement clears
  \<open>deleted_at\<close>, and the primary key refuses a second row with the identifier.
\<close>

lemma GetByID_none_live:
  "(\<forall>d \<in> set (documents s). d_ID d = D \<longrightarrow> d_DeletedAt d \<noteq> None)
     \<Longrightarrow> GetByID s D = Inl ErrDocumentNotFound"
  by (auto simp: GetByID_def find_None_iff split: option.splits)

lemma GetByID_error: "GetByID s D = Inl e \<Longrightarrow> e = ErrDocumentNotFound"
  by (simp add: GetByID_def split: option.splits)

lemma deleted_in_cong: "documents s' = documents s \<Longrightarrow> deleted_in D s' = deleted_in D s"
  by (simp add: deleted_in_def)

lemma deleted_in_map:
  assumes del: "deleted_in D s"
    and ident: "\<And>d. d_ID (f d) = d_ID d"
    and keep: "\<And>d. d_DeletedAt d \<noteq> None \<Longrightarrow> d_DeletedAt (f d) \<noteq> None"
    and docs: "documents s' = map f (documents s)"
  shows "deleted_in D s'"
proof -
  from del obtain d where d: "d \<in> set (documents s)" "d_ID d = D"
    by (auto simp: deleted_in_def)
  then have "f d \<in> set (documents s')" and "d_ID (f d) = D"
    by (simp_all add: docs ident)
  then have ex: "\<exists>d \<in> set (documents s'). d_ID d = D" by blast
  have "d_DeletedAt x \<noteq> None" if "x \<in> set (documents s')" and "d_ID x = D" for x
  proof -
    from that(1) obtain y where y: "y \<in> set (documents s)" "x = f y"
      by (auto simp: docs)
    with that(2) have "d_ID y = D" by (simp add: ident)
    with del y(1) have "d_DeletedAt y \<noteq> None" by (simp add: deleted_in_def)
    then show ?thesis by (simp add: y(2) keep)
  qed
  with ex show ?thesis by (simp add: deleted_in_def)
qed

lemma deleted_in_set_deleted:
  "deleted_in D s \<Longrightarrow> documents s' = set_deleted now D' (documents s) \<Longrightarrow> deleted_in D s'"
  unfolding set_deleted_def
  by (rule deleted_in_map [where f = "\<lambda>d. if d_ID d = D' then d\<lparr>d_DeletedAt := Some now\<rparr> else d"])
     simp_all

lemma deleted_in_set_name:
  "deleted_in D s \<Longrightarrow> documents s' = set_name n now D' (documents s) \<Longrightarrow> deleted_in D s'"
  unfolding set_name_def
  by (rule deleted_in_map
        [where f = "\<lambda>d. if d_ID d = D' then d\<lparr>d_Name := n, d_UpdatedAt := now\<rparr> else d"])
     simp_all

lemma Create_documents:
  "documents (fst (Create dir s env i t owner name orig mime sz data)) = documents s
   \<or> (i \<notin> set (map d_ID (documents s))
      \<and> (\<exists>doc. d_ID doc = i
            \<and> documents (fst (Create dir s env i t owner name orig mime sz data)) = documents s @ [doc]))"
  by (simp add: Create_def Let_def split: option.splits sum.splits)

lemma deleted_in_append:
  "deleted_in D s \<Longrightarrow> d_ID doc \<noteq> D \<Longrightarrow> documents s' = documents s @ [doc] \<Longrightarrow> deleted_in D s'"
  by (auto simp: deleted_in_def)

lemma deleted_in_has_row: "deleted_in D s \<Longrightarrow> D \<in> set (map d_ID (documents s))"
  by (auto simp: deleted_in_def)

lemma Create_deleted_in:
  assumes "deleted_in D s"
  shows "deleted_in D (fst (Create dir s env i t owner name orig mime sz data))"
  using Create_documents [of dir s env i t owner name orig mime sz data]
proof (elim disjE conjE exE)
  assume same: "documents (fst (Create dir s env i t owner name orig mime sz data)) = documents s"
  show ?thesis using assms by (simp only: deleted_in_cong [OF same])
next
  fix doc
  assume fresh: "i \<notin> set (map d_ID (documents s))" and doc: "d_ID doc = i"
    and docs: "documents (fst (Create dir s env i t owner name orig mime sz data)) = documents s @ [doc]"
  have "d_ID doc \<noteq> D"
    using deleted_in_has_row [OF assms] fresh doc by blast
  then show ?thesis by (rule deleted_in_append [OF assms _ docs])
qed

lemma Delete_documents:
  "documents (fst (Delete s env t i u)) = documents s
   \<or> documents (fst (Delete s env t i u)) = set_deleted t i (documents s)"
  by (simp add: Delete_def Let_def split: sum.splits prod.splits)

lemma Delete_deleted_in:
  assumes "deleted_in D s"
  shows "deleted_in D (fst (Delete s env t i u))"
  using Delete_documents [of s env t i u]
proof
  assume same: "documents (fst (Delete s env t i u)) = documents s"
  show ?thesis using assms by (simp only: deleted_in_cong [OF same])
next
  assume "documents (fst (Delete s env t i u)) = set_deleted t i (documents s)"
  then show ?thesis by (rule deleted_in_set_deleted [OF assms])
qed

lemma Rename_documents:
  "documents (fst (Rename s t i u name)) = documents s
   \<or> (\<exists>n. documents (fst (Rename s t i u name)) = set_name n t i (documents s))"
  by (auto simp: Rename_def split: prod.splits option.splits)

lemma Rename_deleted_in:
  assumes "deleted_in D s"
  shows "deleted_in D (fst (Rename s t i u name))"
  using Rename_documents [of s t i u name]
proof (elim disjE exE)
  assume same: "documents (fst (Rename s t i u name)) = documents s"
  show ?thesis using assms by (simp only: deleted_in_cong [OF same])
next
  fix n
  assume "documents (fst (Rename s t i u name)) = set_name n t i (documents s)"
  then show ?thesis by (rule deleted_in_set_name [OF assms])
qed

lemma Share_documents: "documents (fst (Share s i t d owner email p)) = documents s"
  by (simp add: Share_def split: sum.splits option.splits)

lemma RemoveShare_documents: "documents (fst (RemoveShare s d owner w)) = documents s"
  by (simp add: RemoveShare_def Let_def split: sum.splits)

lemma UserCreate_documents: "documents (fst (UserCreate s i t h email name)) = documents s"
  by (simp add: UserCreate_def Let_def split: sum.splits option.splits)

lemma UpdateName_documents: "documents (fst (UpdateName s t i name)) = documents s"
  by (simp add: UpdateName_def Let_def)

lemma exec_deleted_in: "deleted_in D s \<Longrightarrow> deleted_in D (exec dir s c)"
  by (cases c)
     (simp_all add: Create_deleted_in Delete_deleted_in Rename_deleted_in
        deleted_in_cong [OF Share_documents] deleted_in_cong [OF RemoveShare_documents]
        deleted_in_cong [OF UserCreate_documents] deleted_in_cong [OF UpdateName_documents])

lemma run_deleted_in: "deleted_in D s \<Longrightarrow> deleted_in D (run dir s cs)"
  unfolding run_def
  by (induction cs arbitrary: s) (simp_all add: exec_deleted_in)

lemma deleted_in_GetByID: "deleted_in D s \<Longrightarrow> GetByID s D = Inl ErrDocumentNotFound"
  by (rule GetByID_none_live) (simp add: deleted_in_def)

lemma Delete_by_owner:
  assumes "GetByID s D = Inr doc" and "d_OwnerID doc = U"
  shows "snd (snd (Delete s env now D U)) = None"
    and "documents (fst (Delete s env now D U)) = set_deleted now D (documents s)"
  using assms by (simp_all add: Delete_def Let_def split: prod.splits)

lemma set_deleted_deleted_in:
  assumes "doc \<in> set (documents s)" and "d_ID doc = D"
    and "documents s' = set_deleted now D (documents s)"
  shows "deleted_in D s'"
proof -
  let ?f = "\<lambda>d. if d_ID d = D then d\<lparr>d_DeletedAt := Some now\<rparr> else d"
  have docs: "set (documents s') = ?f ` set (documents s)"
    by (simp only: assms(3) set_deleted_def set_map)
  have "?f doc \<in> set (documents s')"
    unfolding docs using assms(1) by (rule imageI)
  moreover have "d_ID (?f doc) = D"
    by (simp add: assms(2))
  ultimately have ex: "\<exists>d \<in> set (documents s'). d_ID d = D" by blast
  have "d_DeletedAt x \<noteq> None" if "x \<in> set (documents s')" and "d_ID x = D" for x
  proof -
    from that(1) obtain y where y: "x = ?f y" unfolding docs by blast
    show ?thesis
    proof (cases "d_ID y = D")
      case True
      then show ?thesis by (simp add: y)
    next
      case False
      with that(2) show ?thesis by (simp add: y)
    qed
  qed
  with ex show ?thesis by (simp add: deleted_in_def)
qed

text \<open>
  C5. \<open>Delete\<close> fails with \<open>ErrDocumentNotFound\<close> when the identifier has no row or
  only rows with a deletion time. For a document that \<open>GetByID\<close> finds, a caller other
  than the owner gets \<open>ErrAccessDenied\<close>, and the store is the one before: the document
  is found as before and the owner has access. For the owner the call returns no error
  whether or not the file could be removed; the rows of the identifier carry the time of
  the call as deletion time, and after any further calls \<open>GetByID\<close> of the identifier
  fails with \<open>ErrDocumentNotFound\<close>. When the removal of the file is refused, the file
  stays and a warning is printed.
\<close>

theorem C5_Delete_soft:
  "((\<forall>d \<in> set (documents s). d_ID d = D \<longrightarrow> d_DeletedAt d \<noteq> None) \<longrightarrow>
       Delete s env now D U = (s, [], Some ErrDocumentNotFound))
   \<and> (GetByID s D = Inr doc \<and> d_OwnerID doc \<noteq> U \<longrightarrow>
       Delete s env now D U = (s, [], Some ErrAccessDenied)
       \<and> GetByID (fst (Delete s env now D U)) D = Inr doc
       \<and> CanAccess (fst (Delete s env now D U)) now' D (d_OwnerID doc) = (True, ''owner'', None))
   \<and> (GetByID s D = Inr doc \<and> d_OwnerID doc = U \<longrightarrow>
       snd (snd (Delete s env now D U)) = None
       \<and> documents (fst (Delete s env now D U)) = set_deleted now D (documents s)
       \<and> (\<forall>d \<in> set (documents (fst (Delete s env now D U))). d_ID d = D \<longrightarrow> d_DeletedAt d = Some now)
       \<and> (\<forall>cs. GetByID (run dir (fst (Delete s env now D U)) cs) D = Inl ErrDocumentNotFound)
       \<and> (remove_fails env \<and> files s (d_FilePath doc) \<noteq> None \<longrightarrow>
            Delete s env now D U
              = (s\<lparr>documents := set_deleted now D (documents s)\<rparr>,
                 [''Warning: failed to delete file '' @ d_FilePath doc], None)))"
proof (intro conjI impI)
  assume "\<forall>d \<in> set (documents s). d_ID d = D \<longrightarrow> d_DeletedAt d \<noteq> None"
  then have "GetByID s D = Inl ErrDocumentNotFound" by (rule GetByID_none_live)
  then show "Delete s env now D U = (s, [], Some ErrDocumentNotFound)"
    by (simp add: Delete_def)
next
  assume a: "GetByID s D = Inr doc \<and> d_OwnerID doc \<noteq> U"
  then show denied: "Delete s env now D U = (s, [], Some ErrAccessDenied)"
    by (simp add: Delete_def)
  from a show "GetByID (fst (Delete s env now D U)) D = Inr doc"
    by (simp add: denied)
  from a show "CanAccess (fst (Delete s env now D U)) now' D (d_OwnerID doc) = (True, ''owner'', None)"
    by (simp add: denied CanAccess_owner)
next
  assume a: "GetByID s D = Inr doc \<and> d_OwnerID doc = U"
  then have live: "GetByID s D = Inr doc" and own: "d_OwnerID doc = U" by simp_all
  show "snd (snd (Delete s env now D U)) = None"
    by (rule Delete_by_owner(1) [OF live own])
  show docs: "documents (fst (Delete s env now D U)) = set_deleted now D (documents s)"
    by (rule Delete_by_owner(2) [OF live own])
  show "\<forall>d \<in> set (documents (fst (Delete s env now D U))). d_ID d = D \<longrightarrow> d_DeletedAt d = Some now"
  proof (intro ballI impI)
    fix x
    assume "x \<in> set (documents (fst (Delete s env now D U)))" and x: "d_ID x = D"
    then obtain y where y: "x = (if d_ID y = D then y\<lparr>d_DeletedAt := Some now\<rparr> else y)"
      unfolding docs set_deleted_def set_map by blast
    show "d_DeletedAt x = Some now"
    proof (cases "d_ID y = D")
      case True
      then show ?thesis by (simp add: y)
    next
      case False
      with x show ?thesis by (simp add: y)
    qed
  qed
  have mem: "doc \<in> set (documents s)" and ident: "d_ID doc = D"
    using GetByID_found [OF live] by simp_all
  have del: "deleted_in D (fst (Delete s env now D U))"
    by (rule set_deleted_deleted_in [OF mem ident docs])
  show "\<forall>cs. GetByID (run dir (fst (Delete s env now D U)) cs) D = Inl ErrDocumentNotFound"
  proof
    fix cs
    have "deleted_in D (run dir (fst (Delete s env now D U)) cs)"
      using del by (rule run_deleted_in)
    then show "GetByID (run dir (fst (Delete s env now D U)) cs) D = Inl ErrDocumentNotFound"
      by (rule deleted_in_GetByID)
  qed
next
  assume a: "GetByID s D = Inr doc \<and> d_OwnerID doc = U"
    and b: "remove_fails env \<and> files s (d_FilePath doc) \<noteq> None"
  from a have live: "GetByID s D = Inr doc" and own: "d_OwnerID doc = U" by simp_all
  from b have "os_Remove env (files s) (d_FilePath doc) = (files s, RemoveFailed)"
    by (auto simp: os_Remove_def)
  then show "Delete s env now D U
              = (s\<lparr>documents := set_deleted now D (documents s)\<rparr>,
                 [''Warning: failed to delete file '' @ d_FilePath doc], None)"
    by (simp add: Delete_def live own Let_def)
qed

theorem C5_Delete_soft_witness:
  "Delete demo_store no_failures 60 doc2 alice = (demo_store, [], Some ErrDocumentNotFound)
   \<and> Delete demo_store no_failures 60 doc1 bob = (demo_store, [], Some ErrAccessDenied)
   \<and> CanAccess (fst (Delete demo_store no_failures 60 doc1 bob)) 61 doc1 alice = (True, ''owner'', None)
   \<and> Delete demo_store (no_failures\<lparr>remove_fails := True\<rparr>) 60 doc1 alice
       = (demo_store\<lparr>documents := set_deleted 60 doc1 (documents demo_store)\<rparr>,
          [''Warning: failed to delete file uploads/d1''], None)
   \<and> GetByID (run ''uploads'' (fst (Delete demo_store (no_failures\<lparr>remove_fails := True\<rparr>) 60 doc1 alice))
        [CallCreate no_failures doc1 70 alice ''report'' ''report.pdf'' ''application/pdf'' 4 ''data''])
        doc1 = Inl ErrDocumentNotFound"
proof -
  let ?doc = "demo_doc doc1 ''uploads/d1'' None"
  let ?refuse = "no_failures\<lparr>remove_fails := True\<rparr>"
  have gone: "\<forall>d \<in> set (documents demo_store). d_ID d = doc2 \<longrightarrow> d_DeletedAt d \<noteq> None"
    by (simp add: demo_defs)
  have owner: "d_OwnerID ?doc = alice" "d_OwnerID ?doc \<noteq> bob"
    by (simp_all add: demo_defs)
  have stays: "remove_fails ?refuse \<and> files demo_store (d_FilePath ?doc) \<noteq> None"
    by (simp add: demo_defs no_failures_def)
  have path: "d_FilePath ?doc = ''uploads/d1''"
    by (simp add: demo_doc_def)
  have "Delete demo_store no_failures 60 doc2 alice = (demo_store, [], Some ErrDocumentNotFound)"
    using C5_Delete_soft [where s = demo_store and D = doc2 and env = no_failures and now = 60
        and U = alice] gone by blast
  moreover have "Delete demo_store no_failures 60 doc1 bob = (demo_store, [], Some ErrAccessDenied)
      \<and> CanAccess (fst (Delete demo_store no_failures 60 doc1 bob)) 61 doc1 alice = (True, ''owner'', None)"
    using C5_Delete_soft [where s = demo_store and D = doc1 and env = no_failures and now = 60
        and U = bob and doc = ?doc and now' = 61] demo_store_live owner by clarsimp
  moreover have "Delete demo_store ?refuse 60 doc1 alice
       = (demo_store\<lparr>documents := set_deleted 60 doc1 (documents demo_store)\<rparr>,
          [''Warning: failed to delete file uploads/d1''], None)
     \<and> (\<forall>cs. GetByID (run ''uploads'' (fst (Delete demo_store ?refuse 60 doc1 alice)) cs) doc1
            = Inl ErrDocumentNotFound)"
    using C5_Delete_soft [where s = demo_store and D = doc1 and env = ?refuse and now = 60
        and U = alice and doc = ?doc and dir = "''uploads''"] demo_store_live owner stays
    by (clarsimp simp: path)
  ultimately show ?thesis by blast
qed

section \<open>Soft-deleted documents are out of reach\<close>

lemma deleted_in_row:
  assumes "doc \<in> set (documents s)" and "d_ID doc = D" and "d_DeletedAt doc = Some t"
    and "distinct (map d_ID (documents s))"
  shows "deleted_in D s"
proof -
  have inj: "inj_on d_ID (set (documents s))"
    using assms(4) by (simp add: distinct_map)
  have "d_DeletedAt d \<noteq> None" if "d \<in> set (documents s)" and "d_ID d = D" for d
  proof -
    have "d = doc"
      using inj that(1) assms(1) that(2) assms(2) by (simp add: inj_on_def)
    then show ?thesis by (simp add: assms(3))
  qed
  with assms(1,2) show ?thesis unfolding deleted_in_def by blast
qed

lemma not_found_operations:
  assumes "GetByID s D = Inl ErrDocumentNotFound"
  shows "CanAccess s now D U = (False, [], Some ErrDocumentNotFound)"
    and "GetFilePath s now D U = Inl ErrDocumentNotFound"
    and "Rename s now D U newName = (s, Some ErrDocumentNotFound)"
    and "Share s i now D U email p = (s, Some ErrDocumentNotFound)"
    and "RemoveShare s D U V = (s, Some ErrDocumentNotFound)"
    and "Delete s env now D U = (s, [], Some ErrDocumentNotFound)"
  using assms
  by (simp_all add: CanAccess_def GetFilePath_def Rename_def Share_def RemoveShare_def Delete_def)

text \<open>
  C10. Let a document row carry a deletion time, in a table whose identifiers are
  distinct (the primary key). Then in this store, and in the store after any further
  calls of the services, every operation that looks the document up fails with
  \<open>ErrDocumentNotFound\<close> and changes nothing, whoever calls, the owner and the users
  with share rows included: \<open>GetByID\<close>, \<open>CanAccess\<close>, \<open>GetFilePath\<close>, \<open>Rename\<close>,
  \<open>Share\<close>, \<open>RemoveShare\<close> and \<open>Delete\<close>.
\<close>

theorem C10_soft_deleted_not_found:
  assumes "doc \<in> set (documents s)" and "d_ID doc = D" and "d_DeletedAt doc = Some t"
    and "distinct (map d_ID (documents s))"
    and "s' = run dir s cs"
  shows "GetByID s' D = Inl ErrDocumentNotFound
       \<and> CanAccess s' now D U = (False, [], Some ErrDocumentNotFound)
       \<and> GetFilePath s' now D U = Inl ErrDocumentNotFound
       \<and> Rename s' now D U newName = (s', Some ErrDocumentNotFound)
       \<and> Share s' i now D U email p = (s', Some ErrDocumentNotFound)
       \<and> RemoveShare s' D U V = (s', Some ErrDocumentNotFound)
       \<and> Delete s' env now D U = (s', [], Some ErrDocumentNotFound)"
proof -
  have "deleted_in D s"
    by (rule deleted_in_row [OF assms(1-4)])
  then have "deleted_in D s'"
    unfolding assms(5) by (rule run_deleted_in)
  then have nf: "GetByID s' D = Inl ErrDocumentNotFound"
    by (rule deleted_in_GetByID)
  show ?thesis
    by (intro conjI nf not_found_operations [OF nf])
qed

theorem C10_soft_deleted_not_found_witness:
  "demo_doc doc2 ''uploads/d2'' (Some 40) \<in> set (documents demo_store)
   \<and> distinct (map d_ID (documents demo_store))
   \<and> GetByID demo_store doc2 = Inl ErrDocumentNotFound
   \<and> CanAccess demo_store 60 doc2 alice = (False, [], Some ErrDocumentNotFound)
   \<and> GetFilePath demo_store 60 doc2 alice = Inl ErrDocumentNotFound
   \<and> Rename demo_store 60 doc2 alice ''minutes'' = (demo_store, Some ErrDocumentNotFound)
   \<and> Share demo_store (UUID ''s3'') 60 doc2 alice ''bob@example.com'' ''view''
       = (demo_store, Some ErrDocumentNotFound)
   \<and> RemoveShare demo_store doc2 alice bob = (demo_store, Some ErrDocumentNotFound)
   \<and> Delete demo_store no_failures 60 doc2 alice = (demo_store, [], Some ErrDocumentNotFound)"
proof -
  have row: "demo_doc doc2 ''uploads/d2'' (Some 40) \<in> set (documents demo_store)"
    by (simp add: demo_store_def)
  have ident: "d_ID (demo_doc doc2 ''uploads/d2'' (Some 40)) = doc2"
    and del: "d_DeletedAt (demo_doc doc2 ''uploads/d2'' (Some 40)) = Some 40"
    by (simp_all add: demo_doc_def)
  have pk: "distinct (map d_ID (documents demo_store))"
    by (simp add: demo_defs)
  have here: "demo_store = run ''uploads'' demo_store []"
    by (simp add: run_def)
  from C10_soft_deleted_not_found [OF row ident del pk here, of 60 alice "''minutes''"
      "UUID ''s3''" "''bob@example.com''" "''view''" bob no_failures] row pk
  show ?thesis by simp
qed

section \<open>Removing a share\<close>

lemma removed_rows_zero:
  "length xs - length (filter (\<lambda>x. \<not> P x) xs) = 0 \<longleftrightarrow> (\<forall>x \<in> set xs. \<not> P x)"
proof (induction xs)
  case Nil
  then show ?case by simp
next
  case (Cons a xs)
  have le: "length (filter (\<lambda>x. \<not> P x) xs) \<le> length xs"
    by (rule length_filter_le)
  show ?case
  proof (cases "P a")
    case True
    with le show ?thesis by (simp add: Suc_diff_le)
  next
    case False
    with Cons.IH show ?thesis by simp
  qed
qed

lemma RemoveShare_by_owner:
  assumes "GetByID s D = Inr doc" and "d_OwnerID doc = U"
  shows "RemoveShare s D U V =
           (s\<lparr>document_shares := filter (\<lambda>r. \<not> share_for D V r) (document_shares s)\<rparr>,
            if \<forall>r \<in> set (document_shares s). \<not> share_for D V r
            then Some ErrShareNotFound else None)"
  using assms removed_rows_zero [of "document_shares s" "share_for D V"]
  by (simp add: RemoveShare_def Let_def)

text \<open>
  The service never writes an expiry: \<open>Share\<close> inserts a row without one and
  overwrites the permission only. So in a store that a history of calls leaves, every
  share row is active at every time.
\<close>

lemma upsert_share_no_expiry:
  assumes "upsert_share i t d b w p rows = Some rows'"
    and "\<forall>r \<in> set rows. ds_ExpiresAt r = None"
  shows "\<forall>r \<in> set rows'. ds_ExpiresAt r = None"
proof (cases "\<exists>r \<in> set rows. share_for d w r")
  case True
  with assms(1) have eq: "rows' = map (\<lambda>r. if share_for d w r then r\<lparr>ds_Permission := p\<rparr> else r) rows"
    by (simp add: upsert_share_def)
  show ?thesis
  proof
    fix x
    assume "x \<in> set rows'"
    then obtain y where y: "y \<in> set rows"
      and x: "x = (if share_for d w y then y\<lparr>ds_Permission := p\<rparr> else y)"
      unfolding eq set_map by blast
    from assms(2) y have "ds_ExpiresAt y = None" by simp
    then show "ds_ExpiresAt x = None"
      by (cases "share_for d w y") (simp_all add: x)
  qed
next
  case False
  with assms(1) have "rows' = rows @ [\<lparr> ds_ID = i, ds_DocumentID = d, ds_SharedByID = b,
      ds_SharedWithID = w, ds_Permission = p, ds_ExpiresAt = None, ds_CreatedAt = t \<rparr>]"
    by (simp add: upsert_share_def split: if_splits)
  with assms(2) show ?thesis by simp
qed

lemma Share_no_expiry:
  assumes "\<forall>r \<in> set (document_shares s). ds_ExpiresAt r = None"
  shows "\<forall>r \<in> set (document_shares (fst (Share s i t d owner email p))). ds_ExpiresAt r = None"
proof (cases "snd (Share s i t d owner email p)")
  case None
  then have "Share s i t d owner email p = (fst (Share s i t d owner email p), None)"
    by (simp add: prod_eq_iff)
  then obtain doc u rows
    where "GetByID s d = Inr doc" and "d_OwnerID doc = owner"
      and "find (\<lambda>u. u_Email u = email) (users s) = Some u"
      and ups: "upsert_share i t d owner (u_ID u) p (document_shares s) = Some rows"
      and s': "fst (Share s i t d owner email p) = s\<lparr>document_shares := rows\<rparr>"
    by (rule Share_success)
  have "\<forall>r \<in> set rows. ds_ExpiresAt r = None"
    by (rule upsert_share_no_expiry [OF ups assms])
  then show ?thesis by (simp add: s')
next
  case (Some e)
  then have "fst (Share s i t d owner email p) = s"
    by (auto simp: Share_def split: sum.splits option.splits if_splits)
  with assms show ?thesis by simp
qed

lemma RemoveShare_no_expiry:
  "\<forall>r \<in> set (document_shares s). ds_ExpiresAt r = None
     \<Longrightarrow> \<forall>r \<in> set (document_shares (fst (RemoveShare s d owner w))). ds_ExpiresAt r = None"
  by (simp add: RemoveShare_def Let_def split: sum.splits)

lemma exec_no_expiry:
  "\<forall>r \<in> set (document_shares s). ds_ExpiresAt r = None
     \<Longrightarrow> \<forall>r \<in> set (document_shares (exec dir s c)). ds_ExpiresAt r = None"
proof (cases c)
  case (CallShare i t d owner email p)
  then show "\<forall>r \<in> set (document_shares s). ds_ExpiresAt r = None
     \<Longrightarrow> \<forall>r \<in> set (document_shares (exec dir s c)). ds_ExpiresAt r = None"
    using Share_no_expiry [of s i t d owner email p] by simp
next
  case (CallRemoveShare d owner w)
  then show "\<forall>r \<in> set (document_shares s). ds_ExpiresAt r = None
     \<Longrightarrow> \<forall>r \<in> set (document_shares (exec dir s c)). ds_ExpiresAt r = None"
    using RemoveShare_no_expiry [of s d owner w] by simp
qed (simp_all add: Create_document_shares Delete_document_shares
       Rename_document_shares UserCreate_document_shares UpdateName_document_shares)

lemma run_no_expiry:
  "\<forall>r \<in> set (document_shares s). ds_ExpiresAt r = None
     \<Longrightarrow> \<forall>r \<in> set (document_shares (run dir s cs)). ds_ExpiresAt r = None"
  unfolding run_def
proof (induction cs arbitrary: s)
  case Nil
  then show ?case by simp
next
  case (Cons c cs)
  have "\<forall>r \<in> set (document_shares (exec dir s c)). ds_ExpiresAt r = None"
    using Cons.prems by (rule exec_no_expiry)
  then have "\<forall>r \<in> set (document_shares (foldl (exec dir) (exec dir s c) cs)). ds_ExpiresAt r = None"
    by (rule Cons.IH)
  then show ?case by simp
qed

lemma reachable_active_shares:
  assumes "s = run dir empty_store cs"
  shows "active_shares s now D V = filter (share_for D V) (document_shares s)"
proof -
  have "\<forall>r \<in> set (document_shares s). ds_ExpiresAt r = None"
    unfolding assms by (rule run_no_expiry) (simp add: empty_store_def)
  then have "\<forall>r \<in> set (document_shares s). share_active now r"
    by (simp add: share_active_def)
  then show ?thesis
    unfolding active_shares_def by (auto intro: filter_cong)
qed

lemma reachable_pair_rows:
  assumes "s = run dir empty_store cs"
  shows "filter (share_for D V) (document_shares s) = []
       \<or> (\<exists>r. filter (share_for D V) (document_shares s) = [r])"
proof (cases "\<exists>r \<in> set (document_shares s). share_for D V r")
  case False
  then have "filter (share_for D V) (document_shares s) = []"
    by (simp add: filter_empty_conv)
  then show ?thesis by simp
next
  case True
  then obtain r where r: "r \<in> set (document_shares s)" "share_for D V r" by blast
  have "shares_unique s"
    unfolding assms by (rule run_shares_unique [OF empty_store_shares_unique])
  then have dist: "distinct (map share_key (document_shares s))"
    by (simp add: shares_unique_key)
  have fk: "share_for D V = (\<lambda>y. share_key y = share_key r)"
    using r(2) by (auto simp: share_for_key)
  have "filter (\<lambda>y. share_key y = share_key r) (document_shares s) = [r]"
    by (rule filter_key_single [OF dist r(1)])
  then have "filter (share_for D V) (document_shares s) = [r]"
    by (simp only: fk)
  then show ?thesis by blast
qed

text \<open>
  C9. Let the store be one that a history of service calls leaves, starting from the
  empty tables. \<open>RemoveShare\<close> fails with \<open>ErrDocumentNotFound\<close> when the identifier
  has no row without a deletion time, and with \<open>ErrAccessDenied\<close> when the caller is
  not the owner of the document found; the store stays as it is. For the owner, the rows
  that the \<open>DELETE\<close> matches are the active share rows of the document and the
  recipient, and there is at most one. The call fails with \<open>ErrShareNotFound\<close> exactly
  when there is none, and then the store stays as it is; otherwise it returns no error,
  the row is removed and no row of the pair is left.
\<close>

theorem C9_RemoveShare_rows:
  assumes "s = run dir empty_store cs"
  shows "((\<forall>d \<in> set (documents s). d_ID d = D \<longrightarrow> d_DeletedAt d \<noteq> None) \<longrightarrow>
            RemoveShare s D U V = (s, Some ErrDocumentNotFound))
       \<and> (GetByID s D = Inr doc \<and> d_OwnerID doc \<noteq> U \<longrightarrow>
            RemoveShare s D U V = (s, Some ErrAccessDenied))
       \<and> (GetByID s D = Inr doc \<and> d_OwnerID doc = U \<longrightarrow>
            filter (share_for D V) (document_shares s) = active_shares s now D V
            \<and> fst (RemoveShare s D U V)
                  = s\<lparr>document_shares := filter (\<lambda>r. \<not> share_for D V r) (document_shares s)\<rparr>
            \<and> (snd (RemoveShare s D U V) = Some ErrShareNotFound
                  \<longleftrightarrow> active_shares s now D V = [])
            \<and> (active_shares s now D V = [] \<longrightarrow>
                  RemoveShare s D U V = (s, Some ErrShareNotFound))
            \<and> (active_shares s now D V \<noteq> [] \<longrightarrow>
                  snd (RemoveShare s D U V) = None
                  \<and> (\<exists>r. active_shares s now D V = [r]
                         \<and> document_shares (fst (RemoveShare s D U V))
                             = filter (\<lambda>x. x \<noteq> r) (document_shares s))
                  \<and> active_shares (fst (RemoveShare s D U V)) now D V = []))"
proof (intro conjI impI)
  assume "\<forall>d \<in> set (documents s). d_ID d = D \<longrightarrow> d_DeletedAt d \<noteq> None"
  then have "GetByID s D = Inl ErrDocumentNotFound" by (rule GetByID_none_live)
  then show "RemoveShare s D U V = (s, Some ErrDocumentNotFound)"
    by (rule not_found_operations(5))
next
  assume "GetByID s D = Inr doc \<and> d_OwnerID doc \<noteq> U"
  then show "RemoveShare s D U V = (s, Some ErrAccessDenied)"
    by (simp add: RemoveShare_def)
next
  assume a: "GetByID s D = Inr doc \<and> d_OwnerID doc = U"
  let ?rows = "document_shares s"
  have act: "active_shares s now D V = filter (share_for D V) ?rows"
    by (rule reachable_active_shares [OF assms])
  have eq: "RemoveShare s D U V =
           (s\<lparr>document_shares := filter (\<lambda>r. \<not> share_for D V r) ?rows\<rparr>,
            if \<forall>r \<in> set ?rows. \<not> share_for D V r then Some ErrShareNotFound else None)"
    using a by (simp add: RemoveShare_by_owner)
  have none_iff: "(\<forall>r \<in> set ?rows. \<not> share_for D V r) \<longleftrightarrow> active_shares s now D V = []"
    by (simp add: act filter_empty_conv)
  show "filter (share_for D V) ?rows = active_shares s now D V"
    by (simp add: act)
  show "fst (RemoveShare s D U V)
         = s\<lparr>document_shares := filter (\<lambda>r. \<not> share_for D V r) ?rows\<rparr>"
    by (simp add: eq)
  show "snd (RemoveShare s D U V) = Some ErrShareNotFound \<longleftrightarrow> active_shares s now D V = []"
    unfolding none_iff [symmetric] by (simp add: eq)
  { assume empty: "active_shares s now D V = []"
    then have no: "\<forall>r \<in> set ?rows. \<not> share_for D V r" by (simp add: none_iff)
    then have "filter (\<lambda>r. \<not> share_for D V r) ?rows = ?rows" by simp
    with no show "RemoveShare s D U V = (s, Some ErrShareNotFound)"
      by (simp add: eq) }
  { assume some: "active_shares s now D V \<noteq> []"
    then have ex: "\<not> (\<forall>r \<in> set ?rows. \<not> share_for D V r)" by (simp add: none_iff)
    then show "snd (RemoveShare s D U V) = None" by (simp add: eq)
    from some reachable_pair_rows [OF assms, of D V] obtain r
      where r: "filter (share_for D V) ?rows = [r]" by (auto simp: act)
    have only: "share_for D V x \<longleftrightarrow> x = r" if "x \<in> set ?rows" for x
    proof
      assume "share_for D V x"
      with that have "x \<in> set (filter (share_for D V) ?rows)" by simp
      then show "x = r" by (simp add: r)
    next
      assume "x = r"
      moreover have "r \<in> set (filter (share_for D V) ?rows)" by (simp add: r)
      ultimately show "share_for D V x" by simp
    qed
    have "filter (\<lambda>x. \<not> share_for D V x) ?rows = filter (\<lambda>x. x \<noteq> r) ?rows"
      by (rule filter_cong [OF refl]) (simp add: only)
    then have "document_shares (fst (RemoveShare s D U V)) = filter (\<lambda>x. x \<noteq> r) ?rows"
      by (simp add: eq)
    with r show "\<exists>r. active_shares s now D V = [r]
        \<and> document_shares (fst (RemoveShare s D U V)) = filter (\<lambda>x. x \<noteq> r) ?rows"
      by (simp add: act)
    have "filter (\<lambda>x. share_for D V x \<and> share_active now x)
            (filter (\<lambda>r. \<not> share_for D V r) ?rows) = []"
      by (simp add: filter_empty_conv)
    then show "active_shares (fst (RemoveShare s D U V)) now D V = []"
      by (simp add: eq active_shares_def) }
qed

lemma demo_shared_run:
  "run ''uploads'' empty_store demo_shared_history
     = demo_reached\<lparr>document_shares := [demo_share (UUID ''s1'') bob ''view'' None]\<rparr>"
proof -
  have "run ''uploads'' empty_store demo_shared_history
      = fst (Share demo_reached (UUID ''s1'') 20 doc1 alice ''bob@example.com'' ''view'')"
    using demo_history_run by (simp add: demo_shared_history_def run_def)
  then show ?thesis
    by (simp add: Share_def GetByID_def upsert_share_def share_for_def
        demo_reached_def demo_share_def alice_def bob_def doc1_def)
qed

theorem C9_RemoveShare_rows_witness:
  "RemoveShare (run ''uploads'' empty_store demo_shared_history) doc2 alice bob
     = (run ''uploads'' empty_store demo_shared_history, Some ErrDocumentNotFound)
   \<and> RemoveShare (run ''uploads'' empty_store demo_shared_history) doc1 bob bob
     = (run ''uploads'' empty_store demo_shared_history, Some ErrAccessDenied)
   \<and> active_shares (run ''uploads'' empty_store demo_shared_history) 30 doc1 alice = []
   \<and> RemoveShare (run ''uploads'' empty_store demo_shared_history) doc1 alice alice
     = (run ''uploads'' empty_store demo_shared_history, Some ErrShareNotFound)
   \<and> active_shares (run ''uploads'' empty_store demo_shared_history) 30 doc1 bob
     = [demo_share (UUID ''s1'') bob ''view'' None]
   \<and> snd (RemoveShare (run ''uploads'' empty_store demo_shared_history) doc1 alice bob) = None
   \<and> active_shares (fst (RemoveShare (run ''uploads'' empty_store demo_shared_history) doc1 alice bob))
        30 doc1 bob = []"
proof -
  let ?s = "run ''uploads'' empty_store demo_shared_history"
  let ?doc = "(demo_doc doc1 ''uploads/d1'' None)\<lparr>d_Name := ''passwd''\<rparr>"
  note ev = demo_shared_run demo_reached_def demo_share_def demo_doc_def
    alice_def bob_def doc1_def doc2_def
  have here: "?s = run ''uploads'' empty_store demo_shared_history" by simp
  have live: "GetByID ?s doc1 = Inr ?doc"
    by (simp add: GetByID_def ev)
  have owner: "d_OwnerID ?doc = alice" "d_OwnerID ?doc \<noteq> bob"
    by (simp_all add: demo_doc_def alice_def bob_def)
  have gone: "\<forall>d \<in> set (documents ?s). d_ID d = doc2 \<longrightarrow> d_DeletedAt d \<noteq> None"
    by (simp add: ev)
  have none: "active_shares ?s 30 doc1 alice = []"
    by (simp add: active_shares_def share_for_def ev)
  have one: "active_shares ?s 30 doc1 bob = [demo_share (UUID ''s1'') bob ''view'' None]"
    by (simp add: active_shares_def share_for_def share_active_def ev)
  have some: "active_shares ?s 30 doc1 bob \<noteq> []"
    by (simp add: one)
  have "RemoveShare ?s doc2 alice bob = (?s, Some ErrDocumentNotFound)"
    using C9_RemoveShare_rows [OF here, where D = doc2 and U = alice and V = bob] gone by blast
  moreover have "RemoveShare ?s doc1 bob bob = (?s, Some ErrAccessDenied)"
    using C9_RemoveShare_rows [OF here, where D = doc1 and U = bob and V = bob and doc = ?doc]
      live owner by blast
  moreover have "RemoveShare ?s doc1 alice alice = (?s, Some ErrShareNotFound)"
    using C9_RemoveShare_rows [OF here, where D = doc1 and U = alice and V = alice and doc = ?doc
        and now = 30] live owner none by blast
  moreover have "snd (RemoveShare ?s doc1 alice bob) = None
      \<and> active_shares (fst (RemoveShare ?s doc1 alice bob)) 30 doc1 bob = []"
    using C9_RemoveShare_rows [OF here, where D = doc1 and U = alice and V = bob and doc = ?doc
        and now = 30] live owner some by blast
  ultimately show ?thesis using none one by (intro conjI) (erule conjunct1 conjunct2 | assumption)+
qed

section \<open>Sharing: failures and validation\<close>

lemma bind_ShareRequest_permission:
  "p \<noteq> ''view'' \<Longrightarrow> p \<noteq> ''edit'' \<Longrightarrow>
     bind_ShareRequest is_email (Some \<lparr> sr_Email = email, sr_Permission = p \<rparr>) = None"
  by (simp add: bind_ShareRequest_def)

text \<open>
  C6. \<open>Share\<close> fails with \<open>ErrDocumentNotFound\<close> when the identifier has no row
  without a deletion time, with \<open>ErrAccessDenied\<close> when the caller is not the owner of
  the document found, and with \<open>ErrUserNotFound\<close> when the owner names an e-mail
  address that no user has; the store stays as it is. A request whose permission is
  neither \<open>view\<close> nor \<open>edit\<close> is turned down by the binding of \<open>ShareRequest\<close> in
  \<open>ShareDocument\<close>, the one caller of \<open>Share\<close>, with status 400 and
  \<open>validation_error\<close>; \<open>Share\<close> is not called and the store stays as it is.
\<close>

theorem C6_Share_failures:
  "((\<forall>d \<in> set (documents s). d_ID d = D \<longrightarrow> d_DeletedAt d \<noteq> None) \<longrightarrow>
       Share s i now D U email p = (s, Some ErrDocumentNotFound))
   \<and> (GetByID s D = Inr doc \<and> d_OwnerID doc \<noteq> U \<longrightarrow>
       Share s i now D U email p = (s, Some ErrAccessDenied))
   \<and> (GetByID s D = Inr doc \<and> d_OwnerID doc = U \<and> (\<forall>u \<in> set (users s). u_Email u \<noteq> email) \<longrightarrow>
       Share s i now D U email p = (s, Some ErrUserNotFound))
   \<and> (p \<noteq> ''view'' \<and> p \<noteq> ''edit'' \<longrightarrow>
       ShareDocument is_email s i now (Some U) (Some D) (Some \<lparr> sr_Email = email, sr_Permission = p \<rparr>)
         = (s, 400, ''validation_error'')
       \<and> fst (ShareDocument is_email s i now ctxUser paramID
                (Some \<lparr> sr_Email = email, sr_Permission = p \<rparr>)) = s)"
proof (intro conjI impI)
  assume "\<forall>d \<in> set (documents s). d_ID d = D \<longrightarrow> d_DeletedAt d \<noteq> None"
  then have "GetByID s D = Inl ErrDocumentNotFound" by (rule GetByID_none_live)
  then show "Share s i now D U email p = (s, Some ErrDocumentNotFound)"
    by (rule not_found_operations(4))
next
  assume "GetByID s D = Inr doc \<and> d_OwnerID doc \<noteq> U"
  then show "Share s i now D U email p = (s, Some ErrAccessDenied)"
    by (simp add: Share_def)
next
  assume a: "GetByID s D = Inr doc \<and> d_OwnerID doc = U \<and> (\<forall>u \<in> set (users s). u_Email u \<noteq> email)"
  then have "find (\<lambda>u. u_Email u = email) (users s) = None"
    by (simp add: find_None_iff)
  with a show "Share s i now D U email p = (s, Some ErrUserNotFound)"
    by (simp add: Share_def)
next
  assume "p \<noteq> ''view'' \<and> p \<noteq> ''edit''"
  then have none: "bind_ShareRequest is_email (Some \<lparr> sr_Email = email, sr_Permission = p \<rparr>) = None"
    by (simp add: bind_ShareRequest_permission)
  show "ShareDocument is_email s i now (Some U) (Some D)
          (Some \<lparr> sr_Email = email, sr_Permission = p \<rparr>) = (s, 400, ''validation_error'')"
    by (simp add: ShareDocument_def none)
  show "fst (ShareDocument is_email s i now ctxUser paramID
               (Some \<lparr> sr_Email = email, sr_Permission = p \<rparr>)) = s"
    by (simp add: ShareDocument_def none split: option.splits)
qed

theorem C6_Share_failures_witness:
  "Share demo_store (UUID ''s3'') 60 doc2 alice ''bob@example.com'' ''view''
     = (demo_store, Some ErrDocumentNotFound)
   \<and> Share demo_store (UUID ''s3'') 60 doc1 bob ''carol@example.com'' ''view''
     = (demo_store, Some ErrAccessDenied)
   \<and> Share demo_store (UUID ''s3'') 60 doc1 alice ''dave@example.com'' ''view''
     = (demo_store, Some ErrUserNotFound)
   \<and> ShareDocument (\<lambda>e. True) demo_store (UUID ''s3'') 60 (Some alice) (Some doc1)
        (Some \<lparr> sr_Email = ''bob@example.com'', sr_Permission = ''admin'' \<rparr>)
     = (demo_store, 400, ''validation_error'')"
proof -
  let ?doc = "demo_doc doc1 ''uploads/d1'' None"
  have owner: "d_OwnerID ?doc = alice" "d_OwnerID ?doc \<noteq> bob"
    by (simp_all add: demo_defs)
  have gone: "\<forall>d \<in> set (documents demo_store). d_ID d = doc2 \<longrightarrow> d_DeletedAt d \<noteq> None"
    by (simp add: demo_defs)
  have nobody: "\<forall>u \<in> set (users demo_store). u_Email u \<noteq> ''dave@example.com''"
    by (simp add: demo_defs)
  have bad: "''admin'' \<noteq> ''view'' \<and> ''admin'' \<noteq> ''edit''"
    by simp
  have "Share demo_store (UUID ''s3'') 60 doc2 alice ''bob@example.com'' ''view''
     = (demo_store, Some ErrDocumentNotFound)"
    using C6_Share_failures [where s = demo_store and D = doc2] gone by blast
  moreover have "Share demo_store (UUID ''s3'') 60 doc1 bob ''carol@example.com'' ''view''
     = (demo_store, Some ErrAccessDenied)"
    using C6_Share_failures [where s = demo_store and D = doc1 and doc = ?doc and U = bob]
      demo_store_live owner by blast
  moreover have "Share demo_store (UUID ''s3'') 60 doc1 alice ''dave@example.com'' ''view''
     = (demo_store, Some ErrUserNotFound)"
    using C6_Share_failures [where s = demo_store and D = doc1 and doc = ?doc and U = alice
        and email = "''dave@example.com''"] demo_store_live owner nobody by blast
  moreover have "ShareDocument (\<lambda>e. True) demo_store (UUID ''s3'') 60 (Some alice) (Some doc1)
        (Some \<lparr> sr_Email = ''bob@example.com'', sr_Permission = ''admin'' \<rparr>)
     = (demo_store, 400, ''validation_error'')"
    using C6_Share_failures [where p = "''admin''"] bad by blast
  ultimately show ?thesis by (intro conjI)
qed

section \<open>File names and storage paths\<close>










lemma SanitizeFilename_rejects:
  "stripped_name f = [] \<or> stripped_name f = ''.'' \<or> stripped_name f = ''..''
     \<Longrightarrow> SanitizeFilename f = Inl ErrInvalidFilename"
  by (auto simp: SanitizeFilename_def Let_def)



















section \<open>Pagination\<close>

lemma wrap64_small: "0 \<le> x \<Longrightarrow> x < 2 ^ 63 \<Longrightarrow> wrap64 x = x"
  by (simp add: wrap64_def)

lemma limit_offset_ok:
  "0 \<le> lim \<Longrightarrow> 0 \<le> off \<Longrightarrow> limit_offset rows lim off = Inr (take (nat lim) (drop (nat off) rows))"
  by (simp add: limit_offset_def)

lemma order_desc_rows:
  "set (order_desc tie key rows) = set rows"
  "length (order_desc tie key rows) = length rows"
  "sorted (rev (map key (order_desc tie key rows)))"
  by (simp_all add: order_desc_def rev_map)

lemma GetByOwner_window:
  assumes "1 \<le> p" and "1 \<le> pp" and "pp \<le> 100" and "(p - 1) * pp < 2 ^ 63"
  shows "GetByOwner s tie owner p pp =
           Inr (map (\<lambda>d. d\<lparr>d_DeletedAt := None\<rparr>)
                  (take (nat pp) (drop (nat ((p - 1) * pp))
                     (order_desc tie d_CreatedAt
                        (filter (\<lambda>d. d_OwnerID d = owner \<and> d_DeletedAt d = None) (documents s))))),
                int (length (filter (\<lambda>d. d_OwnerID d = owner \<and> d_DeletedAt d = None) (documents s))))"
proof -
  have nonneg: "0 \<le> (p - 1) * pp" using assms(1,2) by simp
  have off: "wrap64 ((p - 1) * pp) = (p - 1) * pp"
    by (rule wrap64_small [OF nonneg assms(4)])
  show ?thesis
    using assms(1-3) nonneg by (simp add: GetByOwner_def Let_def off limit_offset_ok)
qed

lemma GetSharedWithUser_window:
  assumes "1 \<le> p" and "1 \<le> pp" and "pp \<le> 100" and "(p - 1) * pp < 2 ^ 63"
  shows "GetSharedWithUser s tie now u p pp =
           Inr (map shared_response
                  (take (nat pp) (drop (nat ((p - 1) * pp))
                     (order_desc tie shared_created_at (shared_rows s now u)))),
                int (length (shared_count_rows s now u)))"
proof -
  have nonneg: "0 \<le> (p - 1) * pp" using assms(1,2) by simp
  have off: "wrap64 ((p - 1) * pp) = (p - 1) * pp"
    by (rule wrap64_small [OF nonneg assms(4)])
  show ?thesis
    using assms(1-3) nonneg by (simp add: GetSharedWithUser_def Let_def off limit_offset_ok)
qed

lemma clamped_offset_fits:
  assumes "p \<le> 92233720368547758"
  shows "((if p < 1 then 1 else p) - 1) * (if pp < 1 \<or> 100 < pp then 20 else pp) < (2::int) ^ 63"
proof -
  let ?P = "if p < 1 then 1 else p" and ?S = "if pp < 1 \<or> 100 < pp then 20 else pp"
  have "0 \<le> ?P - 1" and "?P - 1 \<le> 92233720368547757" using assms by auto
  moreover have "0 \<le> ?S" and "?S \<le> 100" by auto
  ultimately have "(?P - 1) * ?S \<le> 92233720368547757 * 100"
    by (intro mult_mono) auto
  then show ?thesis by simp
qed

text \<open>
  C8, as the code has it. In both listings a page number below 1 counts as 1, and a page
  size below 1 or above 100 counts as 20; the sizes 1 to 100 are kept, the size 1
  included. With a page number from 1 on and a size from 1 to 100 whose offset fits the
  64 bits of \<open>int\<close>, each listing returns the rows of the page, in the order of the
  database, and the total: the documents of the owner that are not deleted, and the
  responses for the active shares with the user of documents that are not deleted. For
  every page number up to 92233720368547758, whatever the size, neither listing returns
  an error. All of this holds however the database places rows of equal time.
\<close>

theorem C8_pagination_clamped:
  "(p < 1 \<longrightarrow> GetByOwner s tie owner p pp = GetByOwner s tie owner 1 pp
              \<and> GetSharedWithUser s tie' now u p pp = GetSharedWithUser s tie' now u 1 pp)
   \<and> (pp < 1 \<or> 100 < pp \<longrightarrow> GetByOwner s tie owner p pp = GetByOwner s tie owner p 20
              \<and> GetSharedWithUser s tie' now u p pp = GetSharedWithUser s tie' now u p 20)
   \<and> (1 \<le> p \<and> 1 \<le> pp \<and> pp \<le> 100 \<and> (p - 1) * pp < 2 ^ 63 \<longrightarrow>
        GetByOwner s tie owner p pp =
           Inr (map (\<lambda>d. d\<lparr>d_DeletedAt := None\<rparr>)
                  (take (nat pp) (drop (nat ((p - 1) * pp))
                     (order_desc tie d_CreatedAt
                        (filter (\<lambda>d. d_OwnerID d = owner \<and> d_DeletedAt d = None) (documents s))))),
                int (length (filter (\<lambda>d. d_OwnerID d = owner \<and> d_DeletedAt d = None) (documents s))))
        \<and> GetSharedWithUser s tie' now u p pp =
           Inr (map shared_response
                  (take (nat pp) (drop (nat ((p - 1) * pp))
                     (order_desc tie' shared_created_at (shared_rows s now u)))),
                int (length (shared_count_rows s now u))))
   \<and> (p \<le> 92233720368547758 \<longrightarrow>
        (\<exists>rows total. GetByOwner s tie owner p pp = Inr (rows, total))
        \<and> (\<exists>rows total. GetSharedWithUser s tie' now u p pp = Inr (rows, total)))"
proof (intro conjI impI)
  assume "p < 1"
  then show "GetByOwner s tie owner p pp = GetByOwner s tie owner 1 pp"
    by (simp add: GetByOwner_def)
  from \<open>p < 1\<close> show "GetSharedWithUser s tie' now u p pp = GetSharedWithUser s tie' now u 1 pp"
    by (simp add: GetSharedWithUser_def)
next
  assume a: "pp < 1 \<or> 100 < pp"
  then show "GetByOwner s tie owner p pp = GetByOwner s tie owner p 20"
    by (simp add: GetByOwner_def)
  from a show "GetSharedWithUser s tie' now u p pp = GetSharedWithUser s tie' now u p 20"
    by (simp add: GetSharedWithUser_def)
next
  assume w: "1 \<le> p \<and> 1 \<le> pp \<and> pp \<le> 100 \<and> (p - 1) * pp < 2 ^ 63"
  then show "GetByOwner s tie owner p pp =
           Inr (map (\<lambda>d. d\<lparr>d_DeletedAt := None\<rparr>)
                  (take (nat pp) (drop (nat ((p - 1) * pp))
                     (order_desc tie d_CreatedAt
                        (filter (\<lambda>d. d_OwnerID d = owner \<and> d_DeletedAt d = None) (documents s))))),
                int (length (filter (\<lambda>d. d_OwnerID d = owner \<and> d_DeletedAt d = None) (documents s))))"
    by (simp add: GetByOwner_window)
  from w show "GetSharedWithUser s tie' now u p pp =
           Inr (map shared_response
                  (take (nat pp) (drop (nat ((p - 1) * pp))
                     (order_desc tie' shared_created_at (shared_rows s now u)))),
                int (length (shared_count_rows s now u)))"
    by (simp add: GetSharedWithUser_window)
next
  assume small: "p \<le> 92233720368547758"
  let ?P = "if p < 1 then 1 else p" and ?S = "if pp < 1 \<or> 100 < pp then 20 else pp"
  have fits: "(?P - 1) * ?S < 2 ^ 63" by (rule clamped_offset_fits [OF small])
  have P: "1 \<le> ?P" and S: "1 \<le> ?S" "?S \<le> 100" by auto
  have eq1: "GetByOwner s tie owner p pp = GetByOwner s tie owner ?P ?S"
    by (simp add: GetByOwner_def)
  have eq2: "GetSharedWithUser s tie' now u p pp = GetSharedWithUser s tie' now u ?P ?S"
    by (simp add: GetSharedWithUser_def)
  show "\<exists>rows total. GetByOwner s tie owner p pp = Inr (rows, total)"
    unfolding eq1 using GetByOwner_window [OF P S fits] by blast
  show "\<exists>rows total. GetSharedWithUser s tie' now u p pp = Inr (rows, total)"
    unfolding eq2 using GetSharedWithUser_window [OF P S fits] by blast
qed

lemma two_documents_listing:
  "GetByOwner two_documents no_preference alice 1 1 = Inr ([demo_doc doc2 ''uploads/d2'' None], 2)"
  "GetByOwner two_documents no_preference alice 1 20
     = Inr ([demo_doc doc2 ''uploads/d2'' None, demo_doc doc1 ''uploads/d1'' None], 2)"
  by (simp_all add: GetByOwner_def Let_def wrap64_def limit_offset_def order_desc_def
      no_preference_def two_documents_def demo_defs)

lemma two_documents_shared:
  "map shared_response
     (take (nat 20) (drop (nat ((1 - 1) * 20))
        (order_desc no_preference shared_created_at (shared_rows two_documents 30 bob))))
   = [\<lparr> dr_Document = demo_doc doc1 [] None, dr_OwnerName = ''user'', dr_SharedWith = [] \<rparr>]"
  "int (length (shared_count_rows two_documents 30 bob)) = 1"
  by (simp_all add: shared_rows_def shared_count_rows_def shared_response_def
      shared_created_at_def share_active_def order_desc_def no_preference_def
      two_documents_def demo_defs)

theorem C8_pagination_clamped_witness:
  "GetByOwner two_documents no_preference alice 0 200
     = GetByOwner two_documents no_preference alice 1 20
   \<and> GetSharedWithUser two_documents no_preference 30 bob (- 5) 0
       = GetSharedWithUser two_documents no_preference 30 bob 1 20
   \<and> GetByOwner two_documents no_preference alice 1 20
       = Inr ([demo_doc doc2 ''uploads/d2'' None, demo_doc doc1 ''uploads/d1'' None], 2)
   \<and> GetSharedWithUser two_documents no_preference 30 bob 1 20
       = Inr ([\<lparr> dr_Document = demo_doc doc1 [] None, dr_OwnerName = ''user'',
                 dr_SharedWith = [] \<rparr>], 1)
   \<and> (\<exists>rows total. GetSharedWithUser two_documents no_preference 30 bob 7 500 = Inr (rows, total))"
proof -
  note inst = C8_pagination_clamped [where s = two_documents and tie = no_preference
      and tie' = no_preference and owner = alice and now = 30 and u = bob]
  have a: "GetByOwner two_documents no_preference alice 0 200
      = GetByOwner two_documents no_preference alice 1 200"
    using inst [where p = 0 and pp = 200] by simp
  have b: "GetByOwner two_documents no_preference alice 1 200
      = GetByOwner two_documents no_preference alice 1 20"
    using inst [where p = 1 and pp = 200] by simp
  have c: "GetSharedWithUser two_documents no_preference 30 bob (- 5) 0
      = GetSharedWithUser two_documents no_preference 30 bob 1 0"
    using inst [where p = "- 5" and pp = 0] by simp
  have d: "GetSharedWithUser two_documents no_preference 30 bob 1 0
      = GetSharedWithUser two_documents no_preference 30 bob 1 20"
    using inst [where p = 1 and pp = 0] by simp
  have small: "(7::int) \<le> 92233720368547758" by simp
  have e: "\<exists>rows total. GetSharedWithUser two_documents no_preference 30 bob 7 500 = Inr (rows, total)"
    using inst [where p = 7 and pp = 500] small by blast
  have page: "(1::int) \<le> 1 \<and> (1::int) \<le> 20 \<and> (20::int) \<le> 100 \<and> ((1::int) - 1) * 20 < 2 ^ 63"
    by simp
  have f: "GetByOwner two_documents no_preference alice 1 20
       = Inr (map (\<lambda>d. d\<lparr>d_DeletedAt := None\<rparr>)
                (take (nat 20) (drop (nat ((1 - 1) * 20))
                   (order_desc no_preference d_CreatedAt
                      (filter (\<lambda>d. d_OwnerID d = alice \<and> d_DeletedAt d = None)
                         (documents two_documents))))),
              int (length (filter (\<lambda>d. d_OwnerID d = alice \<and> d_DeletedAt d = None)
                         (documents two_documents))))"
    using inst [where p = 1 and pp = 20] page by blast
  have g: "GetByOwner two_documents no_preference alice 1 20
       = Inr ([demo_doc doc2 ''uploads/d2'' None, demo_doc doc1 ''uploads/d1'' None], 2)"
    unfolding f by (simp add: order_desc_def no_preference_def two_documents_def demo_defs)
  have h: "GetSharedWithUser two_documents no_preference 30 bob 1 20
       = Inr (map shared_response
                (take (nat 20) (drop (nat ((1 - 1) * 20))
                   (order_desc no_preference shared_created_at (shared_rows two_documents 30 bob)))),
              int (length (shared_count_rows two_documents 30 bob)))"
    using inst [where p = 1 and pp = 20] page by blast
  have i: "GetSharedWithUser two_documents no_preference 30 bob 1 20
       = Inr ([\<lparr> dr_Document = demo_doc doc1 [] None, dr_OwnerName = ''user'',
                 dr_SharedWith = [] \<rparr>], 1)"
    unfolding h two_documents_shared ..
  from a b c d e g i show ?thesis by simp
qed

text \<open>
  The specification's interval fails at the page size 1, which lies outside the interval
  that is open at 1: the size is kept, and the first page has one row where the size 20
  gives two.
\<close>

theorem C8_page_size_one_counterexample:
  "GetByOwner two_documents no_preference alice 1 1
     = Inr ([demo_doc doc2 ''uploads/d2'' None], 2)
   \<and> GetByOwner two_documents no_preference alice 1 20
     = Inr ([demo_doc doc2 ''uploads/d2'' None, demo_doc doc1 ''uploads/d1'' None], 2)
   \<and> GetByOwner two_documents no_preference alice 1 1
     \<noteq> GetByOwner two_documents no_preference alice 1 20"
  by (simp add: two_documents_listing)

text \<open>
  The same holds however rows of equal time are placed: the page of size 1 has one row
  and the page of size 20 has both.
\<close>

lemma page_size_one_kept:
  "GetByOwner two_documents tie alice 1 1 \<noteq> GetByOwner two_documents tie alice 1 20"
proof
  assume eq: "GetByOwner two_documents tie alice 1 1 = GetByOwner two_documents tie alice 1 20"
  have owned: "length (filter (\<lambda>d. d_OwnerID d = alice \<and> d_DeletedAt d = None)
      (documents two_documents)) = 2"
    by (simp add: two_documents_def demo_defs)
  have one: "(1::int) \<le> 1" "(1::int) \<le> 100" "((1::int) - 1) * 1 < 2 ^ 63" by simp_all
  have twenty: "(1::int) \<le> 20" "(20::int) \<le> 100" "((1::int) - 1) * 20 < 2 ^ 63" by simp_all
  from eq have "length (take (nat 1) (drop (nat ((1 - 1) * 1))
        (order_desc tie d_CreatedAt
          (filter (\<lambda>d. d_OwnerID d = alice \<and> d_DeletedAt d = None) (documents two_documents)))))
      = length (take (nat 20) (drop (nat ((1 - 1) * 20))
        (order_desc tie d_CreatedAt
          (filter (\<lambda>d. d_OwnerID d = alice \<and> d_DeletedAt d = None) (documents two_documents)))))"
    unfolding GetByOwner_window [OF one(1) one(1) one(2) one(3)]
      GetByOwner_window [OF one(1) twenty(1) twenty(2) twenty(3)]
    by (auto dest: map_eq_imp_length_eq)
  then show False by (simp add: order_desc_rows(2) owned)
qed

text \<open>
  Beyond the page numbers of the theorem the offset can leave the 64 bits: for the
  largest page number and the size 100 it wraps to \<open>- 200\<close>, which the database
  refuses.
\<close>

lemma GetByOwner_offset_wraps:
  "wrap64 ((9223372036854775807 - 1) * 100) = - 200"
  "GetByOwner s tie owner 9223372036854775807 100 = Inl ErrExternal"
  by (simp_all add: GetByOwner_def Let_def wrap64_def limit_offset_def)

section \<open>Tokens\<close>

text \<open>
  C2. A token that \<open>GenerateToken\<close> issues for a user and an e-mail address at some
  time validates, with the same key, at every time from then up to 24 hours later, and
  the claims returned carry that user and address; at every later time validation fails
  with \<open>ErrExpiredToken\<close>. A token signed with another key fails with
  \<open>ErrInvalidToken\<close>, and so does a token whose header names the algorithm \<open>none\<close>,
  whatever its signature, and a string that is no token; the two errors differ.
\<close>

theorem C2_token_validation:
  "(now \<le> t \<and> t \<le> now + 24 * 3600 \<longrightarrow>
      (\<exists>c. ValidateToken secret t (GenerateToken secret now u e) = Inr c
           \<and> c_UserID c = u \<and> c_Email c = e \<and> c_ExpiresAt c = now + 24 * 3600))
   \<and> (now + 24 * 3600 < t \<longrightarrow>
        ValidateToken secret t (GenerateToken secret now u e) = Inl ErrExpiredToken)
   \<and> (other \<noteq> secret \<longrightarrow>
        ValidateToken secret t (GenerateToken other now u e) = Inl ErrInvalidToken
        \<and> ValidateToken secret t (sign other a c) = Inl ErrInvalidToken)
   \<and> ValidateToken secret t (Token AlgNone c sg) = Inl ErrInvalidToken
   \<and> ValidateToken secret t (Malformed str) = Inl ErrInvalidToken
   \<and> ErrExpiredToken \<noteq> ErrInvalidToken"
proof (intro conjI impI)
  assume "now \<le> t \<and> t \<le> now + 24 * 3600"
  then show "\<exists>c. ValidateToken secret t (GenerateToken secret now u e) = Inr c
           \<and> c_UserID c = u \<and> c_Email c = e \<and> c_ExpiresAt c = now + 24 * 3600"
    by (simp add: ValidateToken_def GenerateToken_def sign_def)
next
  assume "now + 24 * 3600 < t"
  then show "ValidateToken secret t (GenerateToken secret now u e) = Inl ErrExpiredToken"
    by (simp add: ValidateToken_def GenerateToken_def sign_def)
next
  assume "other \<noteq> secret"
  then show "ValidateToken secret t (GenerateToken other now u e) = Inl ErrInvalidToken"
    by (simp add: ValidateToken_def GenerateToken_def sign_def)
  from \<open>other \<noteq> secret\<close>
  show "ValidateToken secret t (sign other a c) = Inl ErrInvalidToken"
    by (simp add: ValidateToken_def sign_def)
next
  show "ValidateToken secret t (Token AlgNone c sg) = Inl ErrInvalidToken"
    by (simp add: ValidateToken_def)
  show "ValidateToken secret t (Malformed str) = Inl ErrInvalidToken"
    by (simp add: ValidateToken_def)
  show "ErrExpiredToken \<noteq> ErrInvalidToken" by simp
qed

theorem C2_token_validation_witness:
  "(\<exists>c. ValidateToken ''test-secret-key-12345'' 3600
          (GenerateToken ''test-secret-key-12345'' 0 alice ''test@example.com'') = Inr c
        \<and> c_UserID c = alice \<and> c_Email c = ''test@example.com'')
   \<and> ValidateToken ''test-secret-key-12345'' 90000
         (GenerateToken ''test-secret-key-12345'' 0 alice ''test@example.com'') = Inl ErrExpiredToken
   \<and> ValidateToken ''secret-key-2'' 3600
         (GenerateToken ''secret-key-1'' 0 alice ''test@example.com'') = Inl ErrInvalidToken"
proof -
  have inside: "(0::int) \<le> 3600 \<and> (3600::int) \<le> 0 + 24 * 3600" by simp
  have late: "(0::int) + 24 * 3600 < 90000" by simp
  have keys: "''secret-key-1'' \<noteq> ''secret-key-2''" by simp
  have "\<exists>c. ValidateToken ''test-secret-key-12345'' 3600
          (GenerateToken ''test-secret-key-12345'' 0 alice ''test@example.com'') = Inr c
        \<and> c_UserID c = alice \<and> c_Email c = ''test@example.com''"
    using C2_token_validation [where now = 0 and t = 3600 and secret = "''test-secret-key-12345''"
        and u = alice and e = "''test@example.com''"] inside by blast
  moreover have "ValidateToken ''test-secret-key-12345'' 90000
         (GenerateToken ''test-secret-key-12345'' 0 alice ''test@example.com'') = Inl ErrExpiredToken"
    using C2_token_validation [where now = 0 and t = 90000 and secret = "''test-secret-key-12345''"
        and u = alice and e = "''test@example.com''"] late by blast
  moreover have "ValidateToken ''secret-key-2'' 3600
         (GenerateToken ''secret-key-1'' 0 alice ''test@example.com'') = Inl ErrInvalidToken"
    using C2_token_validation [where now = 0 and t = 3600 and secret = "''secret-key-2''"
        and other = "''secret-key-1''" and u = alice and e = "''test@example.com''"] keys by blast
  ultimately show ?thesis by (intro conjI)
qed

end
